theory Spec2Isabelle
  imports Main "HOL-Library.AList" "HOL-Library.Word"
begin

section \<open>JavaScript values and string primitives used by the driver\<close>

text \<open>
  A JavaScript string is a sequence of UTF-16 code units. The bridge speaks ASCII, and the
  model represents a line as a \<open>string\<close>: one \<open>char\<close> per code unit, for code units below 256.
  A JavaScript number is modelled as \<open>NaN\<close> or an exact integer; this is what \<open>parseInt\<close>
  returns as long as the value is below \<open>2^53\<close>. A value that may be \<open>undefined\<close> at run time
  (an array element past the end) is an \<open>option\<close>. An exception is the \<open>Inl\<close> of a sum.
\<close>

datatype error = TypeError | RangeError | Error string

datatype jsnum = NaN | Num int

definition and_then :: "error + 'a \<Rightarrow> ('a \<Rightarrow> error + 'b) \<Rightarrow> error + 'b" where
  "and_then r f = (case r of Inl e \<Rightarrow> Inl e | Inr v \<Rightarrow> f v)"

text \<open>\<open>String.prototype.startsWith\<close> and \<open>String.prototype.includes\<close>.\<close>

definition startsWith :: "string \<Rightarrow> string \<Rightarrow> bool" where
  "startsWith s p = (take (length p) s = p)"

fun includes_str :: "string \<Rightarrow> string \<Rightarrow> bool" where
  "includes_str [] p = (p = [])"
| "includes_str (c # cs) p = (startsWith (c # cs) p \<or> includes_str cs p)"

text \<open>
  \<open>slice(start, end)\<close> of strings and arrays: a negative index counts from the end, both
  indices are clamped to the length, and an empty range gives the empty result.
\<close>

definition rel_index :: "int \<Rightarrow> nat \<Rightarrow> nat" where
  "rel_index i len = (if i < 0 then nat (max (int len + i) 0) else min (nat i) len)"

definition slice :: "'a list \<Rightarrow> int \<Rightarrow> int \<Rightarrow> 'a list" where
  "slice xs start fin =
     (let k = rel_index start (length xs); f = rel_index fin (length xs)
      in take (f - k) (drop k xs))"

text \<open>\<open>split(',')\<close>: the result always has at least one element.\<close>

fun split :: "char \<Rightarrow> string \<Rightarrow> string list" where
  "split sep [] = [[]]"
| "split sep (c # cs) =
     (if c = sep then [] # split sep cs
      else (case split sep cs of [] \<Rightarrow> [[c]] | p # ps \<Rightarrow> (c # p) # ps))"

text \<open>Array indexing \<open>parts[i]\<close>: \<open>undefined\<close> past the end, for a negative index and for \<open>NaN\<close>.\<close>

definition at :: "'a list \<Rightarrow> nat \<Rightarrow> 'a option" where
  "at xs i = (if i < length xs then Some (xs ! i) else None)"

definition at_num :: "'a list \<Rightarrow> jsnum \<Rightarrow> 'a option" where
  "at_num xs n = (case n of NaN \<Rightarrow> None | Num i \<Rightarrow> if i < 0 then None else at xs (nat i))"

text \<open>Number addition, and \<open>ToIntegerOrInfinity\<close> as \<open>slice\<close> applies it to its arguments.\<close>

definition num_add :: "jsnum \<Rightarrow> jsnum \<Rightarrow> jsnum" where
  "num_add a b = (case a of NaN \<Rightarrow> NaN | Num x \<Rightarrow> (case b of NaN \<Rightarrow> NaN | Num y \<Rightarrow> Num (x + y)))"

definition to_integer :: "jsnum \<Rightarrow> int" where
  "to_integer n = (case n of NaN \<Rightarrow> 0 | Num i \<Rightarrow> i)"

text \<open>\<open>n & 0x03\<close>: \<open>ToInt32\<close> sends \<open>NaN\<close> to 0 and wraps modulo \<open>2^32\<close>; the mask keeps two bits.\<close>

definition and_3 :: "jsnum \<Rightarrow> jsnum" where
  "and_3 n = (case n of NaN \<Rightarrow> Num 0 | Num i \<Rightarrow> Num ((i mod 4294967296) mod 4))"

text \<open>
  \<open>replace('L=', '')\<close> replaces the first occurrence only; \<open>replace(/:/g, '')\<close> removes
  every colon; \<open>toLowerCase\<close> on code units below 256.
\<close>

fun replace_first :: "string \<Rightarrow> string \<Rightarrow> string \<Rightarrow> string" where
  "replace_first pat rep [] = (if pat = [] then rep else [])"
| "replace_first pat rep (c # cs) =
     (if startsWith (c # cs) pat then rep @ drop (length pat) (c # cs)
      else c # replace_first pat rep cs)"

definition remove_colons :: "string \<Rightarrow> string" where
  "remove_colons s = filter (\<lambda>c. c \<noteq> CHR '':'') s"

definition lower_char :: "char \<Rightarrow> char" where
  "lower_char c =
     (let n = (of_char c :: nat)
      in if (65 \<le> n \<and> n \<le> 90) \<or> (192 \<le> n \<and> n \<le> 222 \<and> n \<noteq> 215) then char_of (n + 32) else c)"

definition toLowerCase :: "string \<Rightarrow> string" where
  "toLowerCase s = map lower_char s"

subsection \<open>parseInt\<close>

text \<open>
  \<open>parseInt(string, radix)\<close>: the argument is converted to a string (\<open>undefined\<close> becomes
  the text \<open>undefined\<close>), leading white space and one sign are skipped, \<open>0x\<close> is skipped when
  the radix is absent or 16, and the longest run of digits of the radix is read. No digit
  gives \<open>NaN\<close>; characters after the digits are ignored.
\<close>

definition is_ws :: "char \<Rightarrow> bool" where
  "is_ws c = ((of_char c :: nat) \<in> {9, 10, 11, 12, 13, 32, 160})"

definition digit_val :: "char \<Rightarrow> nat option" where
  "digit_val c =
     (let n = (of_char c :: nat)
      in if 48 \<le> n \<and> n \<le> 57 then Some (n - 48)
         else if 97 \<le> n \<and> n \<le> 122 then Some (n - 87)
         else if 65 \<le> n \<and> n \<le> 90 then Some (n - 55)
         else None)"

definition is_radix_digit :: "nat \<Rightarrow> char \<Rightarrow> bool" where
  "is_radix_digit R c = (case digit_val c of None \<Rightarrow> False | Some v \<Rightarrow> v < R)"

definition digits_value :: "nat \<Rightarrow> string \<Rightarrow> nat" where
  "digits_value R Z = foldl (\<lambda>a c. a * R + (case digit_val c of None \<Rightarrow> 0 | Some v \<Rightarrow> v)) 0 Z"

definition parseInt :: "string option \<Rightarrow> nat option \<Rightarrow> jsnum" where
  "parseInt str radix =
     (let inputString = (case str of None \<Rightarrow> ''undefined'' | Some s \<Rightarrow> s);
          S0 = dropWhile is_ws inputString;
          sign = (if startsWith S0 ''-'' then - 1 else 1 :: int);
          S1 = (if startsWith S0 ''+'' \<or> startsWith S0 ''-'' then tl S0 else S0);
          R0 = (case radix of None \<Rightarrow> 0 | Some r \<Rightarrow> r)
      in if R0 \<noteq> 0 \<and> (R0 < 2 \<or> 36 < R0) then NaN
         else
           let stripPrefix = (R0 = 0 \<or> R0 = 16);
               hex = (stripPrefix \<and> (startsWith S1 ''0x'' \<or> startsWith S1 ''0X''));
               S2 = (if hex then drop 2 S1 else S1);
               R = (if hex then 16 else if R0 = 0 then 10 else R0);
               Z = takeWhile (is_radix_digit R) S2
           in if Z = [] then NaN else Num (sign * int (digits_value R Z)))"

subsection \<open>Regular expressions\<close>

text \<open>
  Every regular expression of the parser is a sequence of literal characters and capture
  groups of the form \<open>(class+)\<close>, with the flag \<open>i\<close>. \<open>rx_here\<close> matches such a sequence at
  the start of a string the way a backtracking matcher does: a group first takes the
  longest run of its class and gives characters back one at a time while the rest fails.
  \<open>rx_match\<close> is \<open>String.prototype.match\<close> without the flag \<open>g\<close>: the first position where
  the pattern matches, returning the captured groups (\<open>match[1]\<close>, \<open>match[2]\<close>, ...).
\<close>

datatype rx_item = Lit string | Grp "char \<Rightarrow> bool"

definition upper_ascii :: "char \<Rightarrow> char" where
  "upper_ascii c = (let n = (of_char c :: nat) in if 97 \<le> n \<and> n \<le> 122 then char_of (n - 32) else c)"

definition ci_startsWith :: "string \<Rightarrow> string \<Rightarrow> bool" where
  "ci_startsWith s p = (map upper_ascii (take (length p) s) = map upper_ascii p)"

fun try_lens :: "(string \<Rightarrow> string list option) \<Rightarrow> string \<Rightarrow> nat \<Rightarrow> string list option" where
  "try_lens k s 0 = None"
| "try_lens k s (Suc n) =
     (case k (drop (Suc n) s) of
        Some caps \<Rightarrow> Some (take (Suc n) s # caps)
      | None \<Rightarrow> try_lens k s n)"

primrec rx_here :: "rx_item list \<Rightarrow> string \<Rightarrow> string list option" where
  "rx_here [] = (\<lambda>s. Some [])"
| "rx_here (it # r) =
     (\<lambda>s. case it of
        Lit l \<Rightarrow> if ci_startsWith s l then rx_here r (drop (length l) s) else None
      | Grp cls \<Rightarrow> try_lens (rx_here r) s (length (takeWhile cls s)))"

fun rx_match :: "rx_item list \<Rightarrow> string \<Rightarrow> string list option" where
  "rx_match p [] = rx_here p []"
| "rx_match p (c # cs) =
     (case rx_here p (c # cs) of Some caps \<Rightarrow> Some caps | None \<Rightarrow> rx_match p cs)"

text \<open>The character classes \<open>[0-9A-F]\<close>, \<open>[0-9A-F:]\<close> and \<open>\d\<close> under the flag \<open>i\<close>.\<close>

definition cls_digit :: "char \<Rightarrow> bool" where
  "cls_digit c = (c \<in> set ''0123456789'')"

definition cls_hex :: "char \<Rightarrow> bool" where
  "cls_hex c = (c \<in> set ''0123456789ABCDEFabcdef'')"

definition cls_hex_colon :: "char \<Rightarrow> bool" where
  "cls_hex_colon c = (cls_hex c \<or> c = CHR '':'')"

text \<open>\<open>/L=([0-9A-F:]+)/i\<close> and \<open>/S=0x([0-9A-F]+)/i\<close>.\<close>

definition rx_L :: "rx_item list" where
  "rx_L = [Lit ''L='', Grp cls_hex_colon]"

definition rx_S :: "rx_item list" where
  "rx_S = [Lit ''S=0x'', Grp cls_hex]"

text \<open>\<open>/S=0x([0-9A-F]+)\.0,L=([0-9A-F:]+),(\d+)/i\<close>.\<close>

definition rx_deviceAnnounce :: "rx_item list" where
  "rx_deviceAnnounce =
     [Lit ''S=0x'', Grp cls_hex, Lit ''.0,L='', Grp cls_hex_colon, Lit '','', Grp cls_digit]"

text \<open>\<open>/S=0x([0-9A-F]+)\.(\d+),S=0x([0-9A-F]+)\.(\d+),(\d+),([0-9A-F]+)/i\<close>.\<close>

definition rx_zclInd :: "rx_item list" where
  "rx_zclInd =
     [Lit ''S=0x'', Grp cls_hex, Lit ''.'', Grp cls_digit, Lit '',S=0x'', Grp cls_hex,
      Lit ''.'', Grp cls_digit, Lit '','', Grp cls_digit, Lit '','', Grp cls_hex]"

definition grp :: "string list \<Rightarrow> nat \<Rightarrow> string" where
  \<comment> \<open>\<open>match[i + 1]\<close>; every group of these patterns takes part in a match\<close>
  "grp caps i = (case at caps i of None \<Rightarrow> [] | Some g \<Rightarrow> g)"

section \<open>The message parser (driver/messageParser.ts)\<close>

subsection \<open>Message prefixes (driver/constants.ts)\<close>

definition TH_READY :: string where "TH_READY = ''[TH,Ready''"
definition TH_GET_SW_VERSION :: string where "TH_GET_SW_VERSION = ''[TH,GetSwVersion''"
definition CONNECTION_GET_ADDRESS :: string where "CONNECTION_GET_ADDRESS = ''[Connection,GetAddress''"
definition BRIDGE_NETWORK_SETTINGS :: string where "BRIDGE_NETWORK_SETTINGS = ''[Bridge,NetworkSettings''"
definition ZDP_JOIN_PERMITTED :: string where "ZDP_JOIN_PERMITTED = ''[Zdp,JoinPermitted''"
definition ZDP_DEVICE_ANNOUNCE :: string where "ZDP_DEVICE_ANNOUNCE = ''[Zdp,ReceivedDeviceAnnounce''"
definition ZDP_NODE_DESC_RSP :: string where "ZDP_NODE_DESC_RSP = ''[Zdp,ReceivedNodeDescRsp''"
definition ZDP_ACTIVE_EP_RSP :: string where "ZDP_ACTIVE_EP_RSP = ''[Zdp,ReceivedActiveEndPointRsp''"
definition ZDP_SIMPLE_DESC_RSP :: string where "ZDP_SIMPLE_DESC_RSP = ''[Zdp,ReceivedSimpleDescRsp''"
definition ZDP_MGMT_LQI_RSP :: string where "ZDP_MGMT_LQI_RSP = ''[Zdp,ReceivedMgmtLqiRsp''"
definition ZDP_IEEE_ADDR_RSP :: string where "ZDP_IEEE_ADDR_RSP = ''[Zdp,ReceivedIeeeAddrRsp''"
definition ZCL_IND :: string where "ZCL_IND = ''[Zcl,Ind''"
definition ZCL_CONF :: string where "ZCL_CONF = ''[Zcl,Conf''"
definition ZCL_REQ :: string where "ZCL_REQ = ''[Zcl,Req''"
definition TOUCHLINK :: string where "TOUCHLINK = ''[Link,Touchlink''"

subsection \<open>Parsed messages\<close>

text \<open>
  The fields of a record are constants of the theory; they carry a prefix (\<open>nd_\<close>, \<open>sd_\<close>,
  \<open>nt_\<close> and so on) so that the functions below can keep the source's parameter names.
\<close>

record NodeDescriptor =
  nd_logicalType :: jsnum
  nd_capability :: jsnum
  nd_manufacturerCode :: jsnum
  nd_maxBufferSize :: jsnum
  nd_maxTransferSize :: jsnum

record SimpleDescriptor =
  sd_endpoint :: jsnum
  sd_profileId :: jsnum
  sd_deviceId :: jsnum
  sd_inputClusters :: "jsnum list"
  sd_outputClusters :: "jsnum list"
  sd_length :: jsnum
  sd_deviceVersion :: jsnum

record NeighborTableEntry =
  nt_extendedPanId :: "string option"
  nt_ieeeAddr :: string
  nt_networkAddress :: jsnum
  nt_linkQuality :: jsnum
  nt_depth :: jsnum
  nt_permitJoin :: jsnum
  nt_relationship :: jsnum
  nt_rxOnWhenIdle :: jsnum
  nt_deviceType :: jsnum

text \<open>
  The tagged union \<open>ParsedMessage\<close>; the arguments of each constructor are the fields of the
  variant in the order of the type declaration. A field read from \<open>parts[i]\<close> without any
  conversion is \<open>undefined\<close> when the line has too few fields, hence an \<open>option\<close>.
\<close>

datatype ParsedMessage =
    Ready
  | Version jsnum "string option" "string option" "string option"
      \<comment> \<open>status, name, keyBitmask, version\<close>
  | Address jsnum string jsnum
      \<comment> \<open>status, ieee, networkAddress\<close>
  | DeviceAnnounce jsnum string jsnum
      \<comment> \<open>networkAddress, ieee, capability\<close>
  | NodeDescRsp jsnum jsnum jsnum NodeDescriptor
      \<comment> \<open>seq, networkAddress, status, data\<close>
  | ActiveEpRsp jsnum jsnum jsnum "jsnum list"
      \<comment> \<open>seq, networkAddress, status, endpoints\<close>
  | ActiveEpReq jsnum jsnum
      \<comment> \<open>seq, endpoint\<close>
  | SimpleDescRsp jsnum jsnum jsnum SimpleDescriptor
      \<comment> \<open>seq, networkAddress, status, data\<close>
  | ZclInd jsnum jsnum jsnum jsnum jsnum string
      \<comment> \<open>source.address, source.endpoint, dest.address, dest.endpoint, clusterId, payload\<close>
  | ZclConf jsnum jsnum jsnum
      \<comment> \<open>endpoint, sequence, status\<close>
  | ZclReq jsnum jsnum
      \<comment> \<open>status, sequence\<close>
  | JoinPermitted bool
  | NetworkSettings bool jsnum "string option" jsnum jsnum jsnum
      \<comment> \<open>factoryNew, panId, extendedPanId, channel, nwkUpdateId, networkAddress\<close>
  | MgmtLqiRsp jsnum jsnum jsnum jsnum jsnum "NeighborTableEntry list"
      \<comment> \<open>seq, srcAddr, status, startIndex, neighborTableEntries, neighborTableList\<close>
  | LinkTouchlink jsnum jsnum
      \<comment> \<open>shortAddress, endpoint\<close>
  | ZdpIeeeAddrRsp jsnum jsnum jsnum string jsnum
      \<comment> \<open>seq, srcAddr, status, ieeeAddr, networkAddress\<close>
  | Unknown string
      \<comment> \<open>raw\<close>

subsection \<open>The branches of \<open>MessageParser.parse\<close>\<close>

definition parts_of :: "string \<Rightarrow> string list" where
  \<comment> \<open>\<open>message.slice(1, -1).split(',')\<close>\<close>
  "parts_of message = split CHR '','' (slice message 1 (- 1))"

definition match_of :: "rx_item list \<Rightarrow> string option \<Rightarrow> error + string list option" where
  \<comment> \<open>\<open>x.match(re)\<close>: a \<open>TypeError\<close> when the receiver is \<open>undefined\<close>\<close>
  "match_of re x = (case x of None \<Rightarrow> Inl TypeError | Some s \<Rightarrow> Inr (rx_match re s))"

definition addr_of :: "string list option \<Rightarrow> jsnum" where
  \<comment> \<open>\<open>addrMatch ? parseInt(addrMatch[1], 16) : 0\<close>\<close>
  "addr_of addrMatch =
     (case addrMatch of None \<Rightarrow> Num 0 | Some caps \<Rightarrow> parseInt (at caps 0) (Some 16))"

definition parse_version :: "string \<Rightarrow> ParsedMessage" where
  "parse_version message =
     (let parts = parts_of message
      in Version (parseInt (at parts 2) None) (at parts 3) (at parts 4) (at parts 5))"

definition parse_address :: "string \<Rightarrow> ParsedMessage" where
  "parse_address message =
     (let ieeeMatch = rx_match rx_L message;
          addrMatch = rx_match rx_S message;
          parts = parts_of message
      in Address (parseInt (at parts 2) None)
           (case ieeeMatch of
              None \<Rightarrow> []
            | Some caps \<Rightarrow> ''0x'' @ toLowerCase (remove_colons (grp caps 0)))
           (addr_of addrMatch))"

definition parse_deviceAnnounce :: "string \<Rightarrow> ParsedMessage option" where
  \<comment> \<open>\<open>None\<close>: the regular expression did not match and control leaves the branch\<close>
  "parse_deviceAnnounce message =
     (case rx_match rx_deviceAnnounce message of
        None \<Rightarrow> None
      | Some caps \<Rightarrow>
          Some (DeviceAnnounce (parseInt (at caps 0) (Some 16))
                  (''0x'' @ toLowerCase (remove_colons (grp caps 1)))
                  (parseInt (at caps 2) None)))"

definition parse_nodeDescRsp :: "string \<Rightarrow> error + ParsedMessage" where
  "parse_nodeDescRsp message =
     (let parts = parts_of message
      in and_then (match_of rx_S (at parts 3)) (\<lambda>addrMatch.
           Inr (NodeDescRsp (parseInt (at parts 2) None) (addr_of addrMatch)
                  (parseInt (at parts 4) None)
                  \<lparr>nd_logicalType = parseInt (at parts 6) None,
                   nd_capability = parseInt (at parts 12) None,
                   nd_manufacturerCode = parseInt (at parts 13) None,
                   nd_maxBufferSize = parseInt (at parts 14) None,
                   nd_maxTransferSize = parseInt (at parts 15) None\<rparr>)))"

definition parse_activeEpRsp :: "string \<Rightarrow> error + ParsedMessage" where
  "parse_activeEpRsp message =
     (let parts = parts_of message
      in and_then (match_of rx_S (at parts 3)) (\<lambda>addrMatch.
           let count = parseInt (at parts 6) None;
               endpoints = map (\<lambda>ep. parseInt (Some ep) None)
                             (slice parts 7 (to_integer (num_add (Num 7) count)))
           in Inr (ActiveEpRsp (parseInt (at parts 2) None) (addr_of addrMatch)
                     (parseInt (at parts 4) None) endpoints)))"

definition parse_activeEpReq :: "string \<Rightarrow> ParsedMessage" where
  "parse_activeEpReq message =
     (let parts = parts_of message;
          endpoint = parseInt (at parts 2) None;
          seq = parseInt (at parts 3) None
      in ActiveEpReq seq endpoint)"

definition parse_simpleDescRsp :: "string \<Rightarrow> error + ParsedMessage" where
  "parse_simpleDescRsp message =
     (let parts = parts_of message
      in and_then (match_of rx_S (at parts 3)) (\<lambda>addrMatch.
           let len = parseInt (at parts 6) None;
               endpoint = parseInt (at parts 7) None;
               profileId = parseInt (at parts 8) None;
               deviceId = parseInt (at parts 9) None;
               deviceVersion = parseInt (at parts 10) None;
               inClusterCount = parseInt (at parts 12) None;
               inputClusters = map (\<lambda>c. parseInt (Some c) None)
                                 (slice parts 13 (to_integer (num_add (Num 13) inClusterCount)));
               outClusterCount = parseInt (at_num parts (num_add (Num 13) inClusterCount)) None;
               outputClusters = map (\<lambda>c. parseInt (Some c) None)
                                  (slice parts (to_integer (num_add (Num 14) inClusterCount))
                                     (to_integer (num_add (num_add (Num 14) inClusterCount)
                                                    outClusterCount)))
           in Inr (SimpleDescRsp (parseInt (at parts 2) None) (addr_of addrMatch)
                     (parseInt (at parts 4) None)
                     \<lparr>sd_endpoint = endpoint, sd_profileId = profileId, sd_deviceId = deviceId,
                      sd_inputClusters = inputClusters, sd_outputClusters = outputClusters,
                      sd_length = len, sd_deviceVersion = deviceVersion\<rparr>)))"

definition parse_zclInd :: "string \<Rightarrow> ParsedMessage option" where
  \<comment> \<open>\<open>None\<close>: the regular expression did not match and control leaves the branch\<close>
  "parse_zclInd message =
     (case rx_match rx_zclInd message of
        None \<Rightarrow> None
      | Some caps \<Rightarrow>
          Some (ZclInd (parseInt (at caps 0) (Some 16)) (parseInt (at caps 1) None)
                  (parseInt (at caps 2) (Some 16)) (parseInt (at caps 3) None)
                  (parseInt (at caps 4) None) (grp caps 5)))"

definition parse_zclConf :: "string \<Rightarrow> ParsedMessage" where
  "parse_zclConf message =
     (let parts = parts_of message
      in ZclConf (parseInt (at parts 2) None) (parseInt (at parts 3) None)
           (parseInt (at parts 4) None))"

definition parse_zclReq :: "string \<Rightarrow> ParsedMessage" where
  "parse_zclReq message =
     (let parts = parts_of message
      in ZclReq (parseInt (at parts 2) None) (parseInt (at parts 3) None))"

definition parse_networkSettings :: "string \<Rightarrow> ParsedMessage" where
  "parse_networkSettings message =
     (let parts = parts_of message;
          addrMatch = (case at parts 7 of None \<Rightarrow> None | Some p \<Rightarrow> rx_match rx_S p)
      in NetworkSettings (at parts 2 = Some ''True'') (parseInt (at parts 3) (Some 16))
           (at parts 4) (parseInt (at parts 5) None) (parseInt (at parts 6) None)
           (addr_of addrMatch))"

text \<open>
  The loop of the \<open>mgmtLqiRsp\<close> branch: \<open>count\<close> iterations, each of which reads one entry of
  eight fields when eight fields are left and otherwise does nothing. (The iterations are
  counted exactly; see the note on numbers above for a count of \<open>2^53\<close> and more.)
\<close>

definition neighbor_entry :: "string list \<Rightarrow> nat \<Rightarrow> error + NeighborTableEntry" where
  "neighbor_entry parts offset =
     (case at parts (offset + 1) of
        None \<Rightarrow> Inl TypeError
      | Some p1 \<Rightarrow>
          Inr \<lparr>nt_extendedPanId = at parts offset,
               nt_ieeeAddr = toLowerCase (remove_colons (replace_first ''L='' [] p1)),
               nt_networkAddress = parseInt (at parts (offset + 2)) None,
               nt_linkQuality = parseInt (at parts (offset + 7)) None,
               nt_depth = parseInt (at parts (offset + 6)) None,
               nt_permitJoin = parseInt (at parts (offset + 5)) None,
               nt_relationship = parseInt (at parts (offset + 4)) None,
               nt_rxOnWhenIdle = parseInt (at parts (offset + 3)) None,
               nt_deviceType = and_3 (parseInt (at parts (offset + 3)) None)\<rparr>)"

fun neighbor_loop ::
  "nat \<Rightarrow> string list \<Rightarrow> nat \<Rightarrow> NeighborTableEntry list \<Rightarrow> error + NeighborTableEntry list" where
  "neighbor_loop 0 parts offset neighborTableList = Inr neighborTableList"
| "neighbor_loop (Suc n) parts offset neighborTableList =
     (if offset + 8 \<le> length parts then
        and_then (neighbor_entry parts offset) (\<lambda>e.
          neighbor_loop n parts (offset + 8) (neighborTableList @ [e]))
      else neighbor_loop n parts offset neighborTableList)"

definition iterations :: "jsnum \<Rightarrow> nat" where
  \<comment> \<open>how often \<open>for (let i = 0; i < count; i++)\<close> runs its body\<close>
  "iterations count = (case count of NaN \<Rightarrow> 0 | Num c \<Rightarrow> nat c)"

definition parse_mgmtLqiRsp :: "string \<Rightarrow> error + ParsedMessage" where
  "parse_mgmtLqiRsp message =
     (let parts = parts_of message
      in and_then (match_of rx_S (at parts 3)) (\<lambda>addrMatch.
           let neighborTableEntries = parseInt (at parts 5) None;
               startIndex = parseInt (at parts 6) None;
               count = parseInt (at parts 7) None
           in and_then (neighbor_loop (iterations count) parts 8 []) (\<lambda>neighborTableList.
                Inr (MgmtLqiRsp (parseInt (at parts 2) None) (addr_of addrMatch)
                       (parseInt (at parts 4) None) startIndex neighborTableEntries
                       neighborTableList))))"

definition parse_linkTouchlink :: "string \<Rightarrow> ParsedMessage" where
  "parse_linkTouchlink message =
     (let parts = parts_of message
      in LinkTouchlink (parseInt (at parts 3) (Some 16)) (parseInt (at parts 4) None))"

definition non_null :: "string list option \<Rightarrow> error + string list" where
  \<comment> \<open>\<open>m![1]\<close>: the assertion is erased at run time, and indexing \<open>null\<close> is a \<open>TypeError\<close>\<close>
  "non_null m = (case m of None \<Rightarrow> Inl TypeError | Some caps \<Rightarrow> Inr caps)"

definition parse_zdpIeeeAddrRsp :: "string \<Rightarrow> error + ParsedMessage" where
  "parse_zdpIeeeAddrRsp message =
     (let parts = parts_of message
      in and_then (match_of rx_S (at parts 3)) (\<lambda>m3.
         and_then (non_null m3) (\<lambda>c3.
         and_then (case at parts 5 of None \<Rightarrow> Inl TypeError | Some p5 \<Rightarrow> Inr p5) (\<lambda>p5.
         and_then (match_of rx_S (at parts 6)) (\<lambda>m6.
         and_then (non_null m6) (\<lambda>c6.
           Inr (ZdpIeeeAddrRsp (parseInt (at parts 2) None) (parseInt (at c3 0) (Some 16))
                  (parseInt (at parts 4) None)
                  (toLowerCase (remove_colons (replace_first ''L='' [] p5)))
                  (parseInt (at c6 0) (Some 16)))))))))"

subsection \<open>\<open>MessageParser.parse\<close>\<close>

text \<open>
  The prefixes are tested in the order of the source. The \<open>deviceAnnounce\<close> and \<open>zclInd\<close>
  branches return only when their regular expression matches; otherwise the later tests run.
\<close>

definition parse :: "string \<Rightarrow> error + ParsedMessage" where
  "parse message =
     (if startsWith message TH_READY then Inr Ready
      else if startsWith message TH_GET_SW_VERSION then Inr (parse_version message)
      else if startsWith message CONNECTION_GET_ADDRESS then Inr (parse_address message)
      else
       (case (if startsWith message ZDP_DEVICE_ANNOUNCE then parse_deviceAnnounce message
              else None) of
          Some m \<Rightarrow> Inr m
        | None \<Rightarrow>
           (if startsWith message ZDP_NODE_DESC_RSP then parse_nodeDescRsp message
            else if startsWith message ZDP_ACTIVE_EP_RSP then parse_activeEpRsp message
            else if startsWith message ''[Zdp,SendActiveEndPointReq,''
              then Inr (parse_activeEpReq message)
            else if startsWith message ZDP_SIMPLE_DESC_RSP then parse_simpleDescRsp message
            else
             (case (if startsWith message ZCL_IND then parse_zclInd message else None) of
                Some m' \<Rightarrow> Inr m'
              | None \<Rightarrow>
                 (if startsWith message ZCL_CONF then Inr (parse_zclConf message)
                  else if startsWith message ZCL_REQ then Inr (parse_zclReq message)
                  else if startsWith message ZDP_JOIN_PERMITTED
                    then Inr (JoinPermitted (includes_str message ''True''))
                  else if startsWith message BRIDGE_NETWORK_SETTINGS
                    then Inr (parse_networkSettings message)
                  else if startsWith message ZDP_MGMT_LQI_RSP then parse_mgmtLqiRsp message
                  else if startsWith message TOUCHLINK then Inr (parse_linkTouchlink message)
                  else if startsWith message ZDP_IEEE_ADDR_RSP
                    then parse_zdpIeeeAddrRsp message
                  else Inr (Unknown message))))))"

section \<open>Rendering numbers in command and error texts\<close>

text \<open>\<open>n.toString(16)\<close>, the template conversion \<open>${n}\<close> and \<open>padStart\<close> for non-negative integers.\<close>

definition digit_char :: "nat \<Rightarrow> char" where
  "digit_char d = (if d < 10 then char_of (48 + d) else char_of (87 + d))"

fun to_radix :: "nat \<Rightarrow> nat \<Rightarrow> string" where
  "to_radix b n =
     (if b < 2 \<or> n < b then [digit_char n] else to_radix b (n div b) @ [digit_char (n mod b)])"

definition to_dec :: "nat \<Rightarrow> string" where
  "to_dec n = to_radix 10 n"

definition to_hex :: "nat \<Rightarrow> string" where
  "to_hex n = to_radix 16 n"

definition padStart :: "nat \<Rightarrow> char \<Rightarrow> string \<Rightarrow> string" where
  "padStart n c s = replicate (n - length s) c @ s"

section \<open>The command queue (utils/queue.ts)\<close>

definition MESSAGE_TERMINATOR :: string where
  "MESSAGE_TERMINATOR = [CHR 0x0D]"

definition DEFAULT_TIMEOUT :: nat where
  "DEFAULT_TIMEOUT = 5000"

type_synonym CommandMatcher = "ParsedMessage \<Rightarrow> bool"

text \<open>
  A promise and the timer that guards it are objects of the runtime; the model names each by
  a handle, a natural number taken from a counter. The fields \<open>resolve\<close> and \<open>reject\<close> of a
  pending command are the two sides of one promise, the field \<open>pc_promise\<close> below; the field
  \<open>pc_timeout\<close> is the handle of the timer.
\<close>

record PendingCommand =
  pc_promise :: nat
  pc_matcher :: CommandMatcher
  pc_timeout :: nat
  pc_command :: string

text \<open>
  The payload of a ZCL indication as the adapter hands it to its waiters
  (\<open>AdapterEvents.ZclPayload\<close>, with the fields that \<open>waitressValidator\<close> reads), and the
  header of the frame.
\<close>

record ZclHeader =
  h_transactionSequenceNumber :: nat
  h_commandIdentifier :: nat

record ZclPayload =
  zp_clusterID :: nat
  zp_address :: nat
  zp_endpoint :: nat
  zp_header :: "ZclHeader option"

text \<open>
  What the queue and the adapter do to their surroundings is recorded as one trace of events,
  in the order in which the calls are made. A promise is settled by the first \<open>Resolve\<close> or
  \<open>Reject\<close> on its handle; later calls on the same handle have no effect on it. The last
  three events are those of the adapter's waiters, named by their \<open>ID\<close>.
\<close>

datatype event =
    Write string
  | Resolve nat ParsedMessage
  | Reject nat error
  | Emit ParsedMessage
  | MatcherCall string ParsedMessage
  | SetTimeout nat nat
  | ClearTimeout nat
  | WaiterRegistered nat
  | WaiterRemoved nat
  | WaiterResolved nat ZclPayload

text \<open>
  The closure passed to \<open>setTimeout\<close> in \<open>execute\<close> captures \<open>id\<close>, \<open>reject\<close>, \<open>timeoutMs\<close> and
  \<open>command\<close>; \<open>due\<close> is the time from which the runtime may run it.
\<close>

record timer_cb =
  cb_id :: string
  cb_promise :: nat
  cb_timeoutMs :: nat
  cb_command :: string
  due :: nat

text \<open>
  The state: the two fields of the class (\<open>pending\<close>, a \<open>Map\<close> in insertion order, and
  \<open>sequenceNumber\<close>), followed by the part of the runtime the class acts on: the trace, the
  armed timers, the write callbacks that have not been called yet (with the \<open>catch\<close> handler
  of \<open>execute\<close>, that captures \<open>id\<close> and the handle, when there is one), the clock and the
  handle counter.
\<close>

record CommandQueue =
  pending :: "(string \<times> PendingCommand) list"
  sequenceNumber :: nat
  trace :: "event list"
  timers :: "(nat \<times> timer_cb) list"
  write_cbs :: "(nat \<times> (string \<times> nat) option) list"
  clock :: nat
  next_handle :: nat

definition new_queue :: CommandQueue where
  "new_queue = \<lparr>pending = [], sequenceNumber = 0, trace = [], timers = [], write_cbs = [],
                clock = 0, next_handle = 0\<rparr>"

definition log :: "event \<Rightarrow> CommandQueue \<Rightarrow> CommandQueue" where
  "log e q = q\<lparr>trace := trace q @ [e]\<rparr>"

definition setTimeout :: "nat \<Rightarrow> timer_cb \<Rightarrow> CommandQueue \<Rightarrow> CommandQueue" where
  "setTimeout h cb q = log (SetTimeout h (cb_timeoutMs cb)) (q\<lparr>timers := timers q @ [(h, cb)]\<rparr>)"

definition clearTimeout :: "nat \<Rightarrow> CommandQueue \<Rightarrow> CommandQueue" where
  "clearTimeout h q = log (ClearTimeout h) (q\<lparr>timers := AList.delete h (timers q)\<rparr>)"

definition pending_set :: "string \<Rightarrow> PendingCommand \<Rightarrow> CommandQueue \<Rightarrow> CommandQueue" where
  \<comment> \<open>\<open>Map.prototype.set\<close>: a new key goes to the end, an old key keeps its place\<close>
  "pending_set id' p q = q\<lparr>pending := AList.update id' p (pending q)\<rparr>"

definition pending_delete :: "string \<Rightarrow> CommandQueue \<Rightarrow> CommandQueue" where
  "pending_delete id' q = q\<lparr>pending := AList.delete id' (pending q)\<rparr>"

definition nextSequence :: "CommandQueue \<Rightarrow> nat \<times> CommandQueue" where
  "nextSequence q = (sequenceNumber q + 1, q\<lparr>sequenceNumber := sequenceNumber q + 1\<rparr>)"

text \<open>
  \<open>send\<close> writes the command and the terminator to the port. The callback of the write is
  called later by the runtime (\<open>write_done\<close> below); until then it is kept under a new handle.
\<close>

definition send :: "string \<Rightarrow> CommandQueue \<Rightarrow> nat \<times> CommandQueue" where
  "send command q =
     (let w = next_handle q;
          data = command @ MESSAGE_TERMINATOR
      in (w, log (Write data) (q\<lparr>next_handle := w + 1, write_cbs := write_cbs q @ [(w, None)]\<rparr>)))"

definition timeout_error :: "nat \<Rightarrow> string \<Rightarrow> error" where
  "timeout_error timeoutMs command =
     Error (''Command timeout after '' @ to_dec timeoutMs @ ''ms: '' @ command)"

definition cleared_error :: error where
  "cleared_error = Error ''Command queue cleared''"

definition write_error :: "string \<Rightarrow> error" where
  "write_error message = Error (''Failed to write to port: '' @ message)"

text \<open>
  \<open>execute\<close>: the identifier \<open>id\<close> is \<open>`${Date.now()}-${Math.random()}`\<close> in the source and
  an argument here. The result is the handle of the returned promise and the new state.
\<close>

definition execute ::
  "string \<Rightarrow> CommandMatcher \<Rightarrow> nat \<Rightarrow> string \<Rightarrow> CommandQueue \<Rightarrow> nat \<times> CommandQueue" where
  "execute command matcher timeoutMs id' q =
     (let h = next_handle q;
          q1 = setTimeout h \<lparr>cb_id = id', cb_promise = h, cb_timeoutMs = timeoutMs,
                             cb_command = command, due = clock q + timeoutMs\<rparr>
                 (q\<lparr>next_handle := h + 1\<rparr>);
          q2 = pending_set id' \<lparr>pc_promise = h, pc_matcher = matcher, pc_timeout = h, pc_command = command\<rparr> q1
      in if command \<noteq> [] then
           (let (w, q3) = send command q2
            in (h, q3\<lparr>write_cbs := AList.update w (Some (id', h)) (write_cbs q3)\<rparr>))
         else (h, q2))"

text \<open>
  \<open>handleMessage\<close>: an exception of the parser leaves the function before the loop. The
  loop returns at the first entry whose matcher accepts the message; the empty list is the
  end of the loop, where the message is emitted.
\<close>

fun handle_loop :: "(string \<times> PendingCommand) list \<Rightarrow> ParsedMessage \<Rightarrow> CommandQueue \<Rightarrow> CommandQueue" where
  "handle_loop [] parsed q = log (Emit parsed) q"
| "handle_loop ((id', p) # rest) parsed q =
     (let q1 = log (MatcherCall id' parsed) q
      in if pc_matcher p parsed then
           log (Resolve (pc_promise p) parsed) (pending_delete id' (clearTimeout (pc_timeout p) q1))
         else handle_loop rest parsed q1)"

definition handleMessage :: "string \<Rightarrow> CommandQueue \<Rightarrow> error + CommandQueue" where
  "handleMessage message q =
     and_then (parse message) (\<lambda>parsed. Inr (handle_loop (pending q) parsed q))"

fun clear_loop :: "(string \<times> PendingCommand) list \<Rightarrow> CommandQueue \<Rightarrow> CommandQueue" where
  "clear_loop [] q = q"
| "clear_loop ((id', p) # rest) q =
     clear_loop rest (log (Reject (pc_promise p) cleared_error) (clearTimeout (pc_timeout p) q))"

definition clear :: "CommandQueue \<Rightarrow> CommandQueue" where
  "clear q = (clear_loop (pending q) q)\<lparr>pending := []\<rparr>"

subsection \<open>The runtime: timers, write callbacks, time\<close>

text \<open>
  The runtime runs the callback of an armed timer once, not before its delay has passed;
  \<open>None\<close> says that the timer is not armed or not yet due. The callback is the closure of
  \<open>execute\<close>: it deletes the entry under \<open>id\<close> and rejects the promise.
\<close>

definition fire_timer :: "nat \<Rightarrow> CommandQueue \<Rightarrow> CommandQueue option" where
  "fire_timer h q =
     (case map_of (timers q) h of
        None \<Rightarrow> None
      | Some cb \<Rightarrow>
          if due cb \<le> clock q then
            Some (log (Reject (cb_promise cb) (timeout_error (cb_timeoutMs cb) (cb_command cb)))
                    (pending_delete (cb_id cb) (q\<lparr>timers := AList.delete h (timers q)\<rparr>)))
          else None)"

text \<open>
  The runtime calls the callback of a write once, with an error message or without. With an
  error, \<open>send\<close> rejects its promise and the \<open>catch\<close> handler of \<open>execute\<close>, when there is one,
  clears the timer, deletes the entry and rejects the promise of the command.
\<close>

definition write_done :: "nat \<Rightarrow> string option \<Rightarrow> CommandQueue \<Rightarrow> CommandQueue option" where
  "write_done w err q =
     (case map_of (write_cbs q) w of
        None \<Rightarrow> None
      | Some handler \<Rightarrow>
          (let q1 = q\<lparr>write_cbs := AList.delete w (write_cbs q)\<rparr>
           in case (err, handler) of
                (Some message, Some (id', h)) \<Rightarrow>
                  Some (log (Reject h (write_error message)) (pending_delete id' (clearTimeout h q1)))
              | _ \<Rightarrow> Some q1))"

definition advance :: "nat \<Rightarrow> CommandQueue \<Rightarrow> CommandQueue" where
  "advance d q = q\<lparr>clock := clock q + d\<rparr>"

text \<open>
  One step of the queue in its environment, and runs of steps. A step that is not enabled
  (a timer that is not due, a write callback that is not outstanding) and a line on which
  the parser raises change nothing.
\<close>

datatype step =
    Incoming string
  | TimerFires nat
  | WriteDone nat "string option"
  | Advance nat
  | Execute string CommandMatcher nat string
  | Send string
  | Clear

fun do_step :: "step \<Rightarrow> CommandQueue \<Rightarrow> CommandQueue" where
  "do_step (Incoming message) q = (case handleMessage message q of Inl e \<Rightarrow> q | Inr q' \<Rightarrow> q')"
| "do_step (TimerFires h) q = (case fire_timer h q of None \<Rightarrow> q | Some q' \<Rightarrow> q')"
| "do_step (WriteDone w err) q = (case write_done w err q of None \<Rightarrow> q | Some q' \<Rightarrow> q')"
| "do_step (Advance d) q = advance d q"
| "do_step (Execute command m timeoutMs id') q = snd (execute command m timeoutMs id' q)"
| "do_step (Send command) q = snd (send command q)"
| "do_step Clear q = clear q"

fun run :: "step list \<Rightarrow> CommandQueue \<Rightarrow> CommandQueue" where
  "run [] q = q"
| "run (s # ss) q = run ss (do_step s q)"

text \<open>The settlement of a promise, read off a trace.\<close>

datatype settlement = Resolved ParsedMessage | Rejected error

fun settles :: "nat \<Rightarrow> event \<Rightarrow> settlement option" where
  "settles h (Resolve h' v) = (if h' = h then Some (Resolved v) else None)"
| "settles h (Reject h' e) = (if h' = h then Some (Rejected e) else None)"
| "settles h _ = None"

definition settle_calls :: "nat \<Rightarrow> event list \<Rightarrow> settlement list" where
  "settle_calls h tr = List.map_filter (settles h) tr"

definition outcome :: "nat \<Rightarrow> event list \<Rightarrow> settlement option" where
  "outcome h tr = (case settle_calls h tr of [] \<Rightarrow> None | s # _ \<Rightarrow> Some s)"

definition new_events :: "CommandQueue \<Rightarrow> CommandQueue \<Rightarrow> event list" where
  "new_events q q' = drop (length (trace q)) (trace q')"

text \<open>What a trace shows: the handles on which a settlement was called, the entries whose
  matcher was called, the messages emitted as \<open>rxMsg\<close> and the data written to the port.\<close>

fun settled_handle :: "event \<Rightarrow> nat option" where
  "settled_handle (Resolve h v) = Some h"
| "settled_handle (Reject h e) = Some h"
| "settled_handle _ = None"

fun matcher_call :: "event \<Rightarrow> string option" where
  "matcher_call (MatcherCall i v) = Some i"
| "matcher_call _ = None"

fun emit_of :: "event \<Rightarrow> ParsedMessage option" where
  "emit_of (Emit v) = Some v"
| "emit_of _ = None"

fun write_of :: "event \<Rightarrow> string option" where
  "write_of (Write d) = Some d"
| "write_of _ = None"

definition settled_handles :: "event list \<Rightarrow> nat list" where
  "settled_handles tr = List.map_filter settled_handle tr"

definition matcher_calls :: "event list \<Rightarrow> string list" where
  "matcher_calls tr = List.map_filter matcher_call tr"

definition emitted :: "event list \<Rightarrow> ParsedMessage list" where
  "emitted tr = List.map_filter emit_of tr"

definition written :: "event list \<Rightarrow> string list" where
  "written tr = List.map_filter write_of tr"

subsection \<open>Well-formed states\<close>

text \<open>
  The states that the operations produce from \<open>new_queue\<close> are well formed: the pending
  commands have different keys and different promises, none of them settled; the timer of
  a command has the handle of its promise; a timer or write callback that refers to the
  promise of a pending command was created with the identifier under which the command is
  stored; and every handle in use is below the counter.
\<close>

definition wf :: "CommandQueue \<Rightarrow> bool" where
  "wf q =
     (distinct (map fst (pending q)) \<and>
      distinct (map (pc_promise \<circ> snd) (pending q)) \<and>
      (\<forall>(i, p) \<in> set (pending q).
          pc_promise p < next_handle q \<and> pc_timeout p = pc_promise p \<and>
          pc_promise p \<notin> set (settled_handles (trace q)) \<and>
          (\<forall>(h, cb) \<in> set (timers q). cb_promise cb = pc_promise p \<longrightarrow> cb_id cb = i) \<and>
          (\<forall>(w, handler) \<in> set (write_cbs q).
              case handler of None \<Rightarrow> True | Some (i', h) \<Rightarrow> h = pc_promise p \<longrightarrow> i' = i)) \<and>
      (\<forall>(h, cb) \<in> set (timers q). h < next_handle q \<and> cb_promise cb = h) \<and>
      (\<forall>(w, handler) \<in> set (write_cbs q).
          w < next_handle q \<and> (case handler of None \<Rightarrow> True | Some (i', h) \<Rightarrow> h < next_handle q)) \<and>
      (\<forall>h \<in> set (settled_handles (trace q)). h < next_handle q))"



section \<open>The adapter (adapter/hueBridgeAdapter.ts)\<close>

subsection \<open>Command templates (driver/constants.ts)\<close>

definition hex4 :: "nat \<Rightarrow> string" where
  \<comment> \<open>\<open>addr.toString(16).padStart(4, '0')\<close>\<close>
  "hex4 addr = padStart 4 CHR ''0'' (to_hex addr)"

definition ZDP_NODE_DESC_REQ :: "nat \<Rightarrow> nat \<Rightarrow> string" where
  "ZDP_NODE_DESC_REQ addr seq = ''[Zdp,SendNodeDescReq,S=0x'' @ hex4 addr @ ''.0,'' @ to_dec addr @ '']''"

definition ZDP_ACTIVE_EP_REQ :: "nat \<Rightarrow> nat \<Rightarrow> string" where
  "ZDP_ACTIVE_EP_REQ addr seq =
     ''[Zdp,SendActiveEndPointReq,S=0x'' @ hex4 addr @ ''.0,'' @ to_dec addr @ '']''"

definition opt_dec :: "nat option \<Rightarrow> string" where
  \<comment> \<open>\<open>${x}\<close> for a number that may be \<open>undefined\<close>\<close>
  "opt_dec x = (case x of None \<Rightarrow> ''undefined'' | Some n \<Rightarrow> to_dec n)"

definition ZDP_SIMPLE_DESC_REQ :: "nat \<Rightarrow> nat \<Rightarrow> nat option \<Rightarrow> string" where
  "ZDP_SIMPLE_DESC_REQ addr seq endpoint =
     ''[Zdp,SendSimpleDescReq,S=0x'' @ hex4 addr @ ''.0,'' @ to_dec addr @ '','' @ opt_dec endpoint @ '']''"

definition ZDP_IEEE_ADDR_REQ :: "nat \<Rightarrow> nat \<Rightarrow> string" where
  "ZDP_IEEE_ADDR_REQ addr seq = ''[Zdp,IeeeAddrReq,S=0x'' @ hex4 addr @ ''.0,'' @ to_dec seq @ '']''"

definition ZDP_MGMT_LQI_REQ :: "nat \<Rightarrow> nat option \<Rightarrow> string" where
  "ZDP_MGMT_LQI_REQ addr startIndex =
     ''[Zdp,SendMgmtLqiReq,S=0x'' @ hex4 addr @ ''.0,'' @ opt_dec startIndex @ '']''"

text \<open>
  \<open>formatIeee\<close>: \<open>ieee.replace(/^0x/, '').replace(/:/g, '')\<close>, then the matches of
  \<open>/.{1,2}/g\<close> (pairs of characters; \<open>.\<close> does not match a line terminator) joined by colons,
  in upper case. The addresses that reach it are strings of hexadecimal digits, on which
  \<open>toUpperCase\<close> changes the letters \<open>a\<close> to \<open>z\<close> only.
\<close>

definition is_line_terminator :: "char \<Rightarrow> bool" where
  "is_line_terminator c = (c = CHR 0x0A \<or> c = CHR 0x0D)"

fun pairs :: "string \<Rightarrow> string list" where
  "pairs [] = []"
| "pairs [a] = (if is_line_terminator a then [] else [[a]])"
| "pairs (a # b # cs) =
     (if is_line_terminator a then pairs (b # cs)
      else if is_line_terminator b then [a] # pairs cs
      else [a, b] # pairs cs)"

fun join :: "string \<Rightarrow> string list \<Rightarrow> string" where
  "join sep [] = []"
| "join sep [x] = x"
| "join sep (x # y # ys) = x @ sep @ join sep (y # ys)"

definition toUpperCase :: "string \<Rightarrow> string" where
  "toUpperCase s = map upper_ascii s"

definition formatIeee :: "string \<Rightarrow> string" where
  "formatIeee ieee =
     (let clean = remove_colons (if startsWith ieee ''0x'' then drop 2 ieee else ieee)
      in toUpperCase (join '':'' (pairs clean)))"

definition ZDP_BIND_REQ ::
  "nat \<Rightarrow> string \<Rightarrow> nat option \<Rightarrow> nat \<Rightarrow> nat \<Rightarrow> string \<Rightarrow> nat option \<Rightarrow> string" where
  "ZDP_BIND_REQ addr srcIeee srcEndpoint clusterId destAddrMode destAddr destEndpoint =
     ''[Zdp,SendBindReq,S=0x'' @ hex4 addr @ ''.0,L='' @ formatIeee srcIeee @ ''.'' @
     opt_dec srcEndpoint @ '','' @ to_dec clusterId @ '',L='' @ formatIeee destAddr @ ''.'' @
     opt_dec destEndpoint @ '']''"

definition ZDP_UNBIND_REQ ::
  "nat \<Rightarrow> string \<Rightarrow> nat option \<Rightarrow> nat \<Rightarrow> nat \<Rightarrow> string \<Rightarrow> nat option \<Rightarrow> string" where
  "ZDP_UNBIND_REQ addr srcIeee srcEndpoint clusterId destAddrMode destAddr destEndpoint =
     ''[Zdp,SendUnbindReq,S=0x'' @ hex4 addr @ ''.0,L='' @ formatIeee srcIeee @ ''.'' @
     opt_dec srcEndpoint @ '','' @ to_dec clusterId @ '',L='' @ formatIeee destAddr @ ''.'' @
     opt_dec destEndpoint @ '']''"

definition bool_text :: "bool \<Rightarrow> string" where
  "bool_text b = (if b then ''True'' else ''False'')"

definition ZDP_MGMT_LEAVE_REQ :: "nat \<Rightarrow> string \<Rightarrow> bool \<Rightarrow> bool \<Rightarrow> string" where
  "ZDP_MGMT_LEAVE_REQ addr deviceIeee rejoin removeChildren =
     ''[Zdp,SendMgmtLeaveReq,S=0x'' @ hex4 addr @ ''.0,L='' @ formatIeee deviceIeee @ '','' @
     bool_text rejoin @ '','' @ bool_text removeChildren @ '']''"

definition ZCL_REQ_UNICAST :: "nat \<Rightarrow> nat \<Rightarrow> nat \<Rightarrow> nat \<Rightarrow> string \<Rightarrow> string" where
  "ZCL_REQ_UNICAST addr endpoint sourceEndpoint clusterId payload =
     ''[Zcl,Req,S=0x'' @ hex4 addr @ ''.'' @ to_dec endpoint @ '','' @ to_dec clusterId @ '','' @
     payload @ '','' @ to_dec sourceEndpoint @ '']''"

subsection \<open>Waiters for indications\<close>

record WaitressMatcher =
  wm_address :: "nat option"
  wm_endpoint :: nat
  wm_transactionSequenceNumber :: "nat option"
  wm_clusterID :: nat
  wm_commandIdentifier :: nat

text \<open>
  \<open>waitressValidator\<close>: \<open>!matcher.address\<close> holds for an absent address and for the address 0.
\<close>

definition waitressValidator :: "ZclPayload \<Rightarrow> WaitressMatcher \<Rightarrow> bool" where
  "waitressValidator payload matcher =
     (case zp_header payload of
        None \<Rightarrow> False
      | Some header \<Rightarrow>
          (wm_address matcher = None \<or> wm_address matcher = Some 0 \<or>
           Some (zp_address payload) = wm_address matcher) \<and>
          zp_endpoint payload = wm_endpoint matcher \<and>
          (wm_transactionSequenceNumber matcher = None \<or>
           Some (h_transactionSequenceNumber header) = wm_transactionSequenceNumber matcher) \<and>
          zp_clusterID payload = wm_clusterID matcher \<and>
          wm_commandIdentifier matcher = h_commandIdentifier header)"

text \<open>
  The adapter: its queue, and the registry of its \<open>waitress\<close> (the waiters in the order of
  their registration, each under its \<open>ID\<close>, and the counter of the identifiers).
\<close>

record HueBridgeAdapter =
  queue :: CommandQueue
  waiters :: "(nat \<times> WaitressMatcher) list"
  currentID :: nat

definition notice :: "event \<Rightarrow> HueBridgeAdapter \<Rightarrow> HueBridgeAdapter" where
  "notice e a = a\<lparr>queue := log e (queue a)\<rparr>"

text \<open>
  Modelled from the spec: the class \<open>Waitress\<close> (utils/waitress.ts), whose \<open>waitFor\<close> is
  missing from the sources. Section 4.3 of the specification describes it as a second
  correlation registry; \<open>register\<close> creates a pending entry with a new identifier.
\<close>

definition waitress_waitFor :: "WaitressMatcher \<Rightarrow> nat \<Rightarrow> HueBridgeAdapter \<Rightarrow> nat \<times> HueBridgeAdapter" where
  "waitress_waitFor matcher timeout a =
     (let ID = currentID a
      in (ID, notice (WaiterRegistered ID)
                (a\<lparr>waiters := waiters a @ [(ID, matcher)], currentID := ID + 1\<rparr>)))"

text \<open>
  Modelled from the spec: \<open>Waitress.remove\<close>, missing from the sources. Section 4.3: a caller
  may cancel before settlement, which deregisters the entry without side effects.
\<close>

definition waitress_remove :: "nat \<Rightarrow> HueBridgeAdapter \<Rightarrow> HueBridgeAdapter" where
  "waitress_remove ID a = notice (WaiterRemoved ID) (a\<lparr>waiters := AList.delete ID (waiters a)\<rparr>)"

text \<open>
  Modelled from the spec: \<open>Waitress.resolve\<close>, missing from the sources. Sections 4.2 and 4.3:
  a message is offered to the entries in registration order; the first whose predicate
  accepts it is removed and settled with it, and the result says whether one did.
\<close>

definition waitress_resolve :: "ZclPayload \<Rightarrow> HueBridgeAdapter \<Rightarrow> bool \<times> HueBridgeAdapter" where
  "waitress_resolve payload a =
     (case List.find (\<lambda>(ID, matcher). waitressValidator payload matcher) (waiters a) of
        None \<Rightarrow> (False, a)
      | Some (ID, matcher) \<Rightarrow>
          (True, notice (WaiterResolved ID payload) (a\<lparr>waiters := AList.delete ID (waiters a)\<rparr>)))"

text \<open>
  \<open>HueBridgeAdapter.waitFor\<close> registers the waiter and starts it; the result stands for the
  pair of the promise and \<open>cancel\<close>, which is \<open>waitress.remove\<close> of the identifier. The
  parameters \<open>_frameType\<close> and \<open>_direction\<close> are not used by the source.
\<close>

definition waitFor ::
  "nat option \<Rightarrow> nat \<Rightarrow> nat option \<Rightarrow> nat \<Rightarrow> nat \<Rightarrow> nat \<Rightarrow> HueBridgeAdapter \<Rightarrow> nat \<times> HueBridgeAdapter" where
  "waitFor networkAddress endpoint transactionSequenceNumber clusterID commandIdentifier timeout a =
     waitress_waitFor
       \<lparr>wm_address = networkAddress, wm_endpoint = endpoint,
        wm_transactionSequenceNumber = transactionSequenceNumber, wm_clusterID = clusterID,
        wm_commandIdentifier = commandIdentifier\<rparr> timeout a"

definition cancel :: "nat option \<Rightarrow> HueBridgeAdapter \<Rightarrow> HueBridgeAdapter" where
  \<comment> \<open>\<open>waiter?.cancel()\<close>\<close>
  "cancel waiter a = (case waiter of None \<Rightarrow> a | Some ID \<Rightarrow> waitress_remove ID a)"

subsection \<open>\<open>sendZclFrameToEndpoint\<close>\<close>

text \<open>
  What the function reads of a \<open>Zcl.Frame\<close>: \<open>toBuffer().toString('hex')\<close>, \<open>cluster.ID\<close>,
  \<open>command.response\<close>, \<open>header.transactionSequenceNumber\<close> and
  \<open>header.frameControl.disableDefaultResponse\<close>.
\<close>

record ZclFrame =
  zf_buffer_hex :: string
  zf_cluster_ID :: nat
  zf_command_response :: "nat option"
  zf_transactionSequenceNumber :: nat
  zf_disableDefaultResponse :: bool

definition strict_eq :: "jsnum \<Rightarrow> jsnum \<Rightarrow> bool" where
  \<comment> \<open>\<open>===\<close> on numbers: \<open>NaN\<close> is not equal to itself\<close>
  "strict_eq a b = (case a of NaN \<Rightarrow> False | Num x \<Rightarrow> (case b of NaN \<Rightarrow> False | Num y \<Rightarrow> x = y))"

definition num_text :: "jsnum \<Rightarrow> string" where
  "num_text n =
     (case n of NaN \<Rightarrow> ''NaN''
      | Num i \<Rightarrow> if i < 0 then ''-'' @ to_dec (nat (- i)) else to_dec (nat i))"

definition is_zclReq :: CommandMatcher where
  \<comment> \<open>\<open>(msg) => msg.type === 'zclReq'\<close>\<close>
  "is_zclReq msg = (case msg of ZclReq status sequence \<Rightarrow> True | _ \<Rightarrow> False)"

definition conf_matcher :: "jsnum \<Rightarrow> CommandMatcher" where
  \<comment> \<open>\<open>(msg) => msg.type === 'zclConf' && msg.sequence === txSequence\<close>\<close>
  "conf_matcher txSequence msg =
     (case msg of ZclConf endpoint sequence status \<Rightarrow> strict_eq sequence txSequence | _ \<Rightarrow> False)"

text \<open>
  The function is asynchronous: it runs to an \<open>await\<close>, and is resumed with the settlement of
  the awaited promise. A task is where it stands: awaiting the acknowledgement, the
  confirmation or the indication (with the waiter, if any, and what the next phase needs),
  or finished with a result or an exception.
\<close>

datatype zcl_task =
    AwaitAck "nat option" nat nat
  | AwaitConf "nat option" nat
  | AwaitInd nat
  | Returned "ZclPayload option"
  | Thrown error

text \<open>
  From the call to the first \<open>await\<close>. \<open>defaultRspID\<close> stands for \<open>Zcl.Foundation.defaultRsp.ID\<close>
  and \<open>id'\<close> for the identifier that \<open>execute\<close> draws.
\<close>

definition sendZclFrameToEndpoint ::
  "string \<Rightarrow> nat \<Rightarrow> nat \<Rightarrow> ZclFrame \<Rightarrow> nat \<Rightarrow> bool \<Rightarrow> bool \<Rightarrow> nat option \<Rightarrow> nat \<Rightarrow> string \<Rightarrow>
   HueBridgeAdapter \<Rightarrow> zcl_task \<times> HueBridgeAdapter" where
  "sendZclFrameToEndpoint ieeeAddr networkAddress endpoint zclFrame timeout disableResponse
       disableRecovery sourceEndpoint defaultRspID id' a =
     (let payload = toUpperCase (zf_buffer_hex zclFrame);
          command = ZCL_REQ_UNICAST networkAddress endpoint
                      (case sourceEndpoint of None \<Rightarrow> 64 | Some e \<Rightarrow> if e = 0 then 64 else e)
                      (zf_cluster_ID zclFrame) payload;
          (waiter, a1) =
            (if \<not> disableResponse then
               (case zf_command_response zclFrame of
                  Some response \<Rightarrow>
                    (let (w, a') = waitFor (Some networkAddress) endpoint
                                     (Some (zf_transactionSequenceNumber zclFrame))
                                     (zf_cluster_ID zclFrame) response timeout a
                     in (Some w, a'))
                | None \<Rightarrow>
                    if \<not> zf_disableDefaultResponse zclFrame then
                      (let (w, a') = waitFor (Some networkAddress) endpoint
                                       (Some (zf_transactionSequenceNumber zclFrame))
                                       (zf_cluster_ID zclFrame) defaultRspID timeout a
                       in (Some w, a'))
                    else (None, a))
             else (None, a));
          (h, q') = execute command is_zclReq DEFAULT_TIMEOUT id' (queue a1)
      in (AwaitAck waiter h timeout, a1\<lparr>queue := q'\<rparr>))"

text \<open>
  Resumed with the settlement of the acknowledgement. A rejection goes to the \<open>catch\<close> block,
  which cancels the waiter and throws again; an exception thrown inside the \<open>try\<close> block
  passes through the \<open>catch\<close> block as well, so that the waiter is cancelled twice.
\<close>

definition zcl_after_ack ::
  "nat option \<Rightarrow> nat \<Rightarrow> settlement \<Rightarrow> string \<Rightarrow> HueBridgeAdapter \<Rightarrow> zcl_task \<times> HueBridgeAdapter" where
  "zcl_after_ack waiter timeout ack id' a =
     (case ack of
        Rejected error \<Rightarrow> (Thrown error, cancel waiter a)
      | Resolved ackResponse \<Rightarrow>
          (case ackResponse of
             ZclReq status sequence \<Rightarrow>
               (let txSequence = sequence;
                    (h, q') = execute [] (conf_matcher txSequence) timeout id' (queue a)
                in (AwaitConf waiter h, a\<lparr>queue := q'\<rparr>))
           | _ \<Rightarrow> (Thrown (Error ''Failed to send ZCL request''), cancel waiter (cancel waiter a))))"

definition zcl_after_conf ::
  "nat option \<Rightarrow> settlement \<Rightarrow> HueBridgeAdapter \<Rightarrow> zcl_task \<times> HueBridgeAdapter" where
  "zcl_after_conf waiter conf a =
     (let continue = (case waiter of None \<Rightarrow> (Returned None, a) | Some w \<Rightarrow> (AwaitInd w, a))
      in case conf of
           Rejected error \<Rightarrow> (Thrown error, cancel waiter a)
         | Resolved confResponse \<Rightarrow>
             (case confResponse of
                ZclConf endpoint sequence status \<Rightarrow>
                  if \<not> strict_eq status (Num 0) then
                    (Thrown (Error (''ZCL command failed with status '' @ num_text status)),
                     cancel waiter (cancel waiter a))
                  else continue
              | _ \<Rightarrow> continue))"

definition zcl_after_ind ::
  "nat \<Rightarrow> error + ZclPayload \<Rightarrow> HueBridgeAdapter \<Rightarrow> zcl_task \<times> HueBridgeAdapter" where
  "zcl_after_ind w ind a =
     (case ind of
        Inl error \<Rightarrow> (Thrown error, cancel (Some w) a)
      | Inr result \<Rightarrow> (Returned (Some result), a))"

text \<open>
  Steps of the adapter in its environment: a step of the queue, an indication offered to
  the waiters (as \<open>processMessages\<close> does for a \<open>zclInd\<close> message), a new waiter, a cancellation.
\<close>

datatype adapter_step =
    QueueStep step
  | Indication ZclPayload
  | NewWaiter WaitressMatcher nat
  | CancelWaiter nat

fun adapter_do :: "adapter_step \<Rightarrow> HueBridgeAdapter \<Rightarrow> HueBridgeAdapter" where
  "adapter_do (QueueStep st) a = a\<lparr>queue := do_step st (queue a)\<rparr>"
| "adapter_do (Indication payload) a = snd (waitress_resolve payload a)"
| "adapter_do (NewWaiter matcher timeout) a = snd (waitress_waitFor matcher timeout a)"
| "adapter_do (CancelWaiter ID) a = waitress_remove ID a"

fun adapter_run :: "adapter_step list \<Rightarrow> HueBridgeAdapter \<Rightarrow> HueBridgeAdapter" where
  "adapter_run [] a = a"
| "adapter_run (s # ss) a = adapter_run ss (adapter_do s a)"

fun waiter_resolved :: "nat \<Rightarrow> event \<Rightarrow> bool" where
  "waiter_resolved w (WaiterResolved ID payload) = (ID = w)"
| "waiter_resolved w _ = False"

subsection \<open>\<open>sendZdo\<close>\<close>

text \<open>
  The clusters of \<open>Zdo.ClusterId\<close> that the function distinguishes; any other cluster takes
  the \<open>default\<close> branch.
\<close>

datatype ClusterId =
    NODE_DESCRIPTOR_REQUEST
  | ACTIVE_ENDPOINTS_REQUEST
  | SIMPLE_DESCRIPTOR_REQUEST
  | IEEE_ADDRESS_REQUEST
  | LQI_TABLE_REQUEST
  | BIND_REQUEST
  | UNBIND_REQUEST
  | LEAVE_REQUEST
  | OTHER_CLUSTER nat

text \<open>
  A \<open>Buffer\<close> is a list of bytes. \<open>payload[i]\<close> is \<open>undefined\<close> past the end,
  \<open>readUInt16LE\<close> raises a \<open>RangeError\<close> there, \<open>subarray\<close> clamps its bounds, and
  \<open>toString('hex')\<close> writes two lower-case digits for each byte. (\<open>reverse\<close> works in place on
  the bytes of \<open>payload\<close>; the function does not read those bytes again.)
\<close>

type_synonym Buffer = "8 word list"

definition byte_at :: "Buffer \<Rightarrow> nat \<Rightarrow> nat option" where
  "byte_at payload i = map_option unat (at payload i)"

definition readUInt16LE :: "Buffer \<Rightarrow> nat \<Rightarrow> error + nat" where
  "readUInt16LE payload offset =
     (if offset + 2 \<le> length payload
      then Inr (unat (payload ! offset) + 256 * unat (payload ! (offset + 1)))
      else Inl RangeError)"

definition hex_of :: "Buffer \<Rightarrow> string" where
  "hex_of b = concat (map (\<lambda>x. padStart 2 CHR ''0'' (to_hex (unat x))) b)"

definition reversed_hex :: "Buffer \<Rightarrow> nat \<Rightarrow> nat \<Rightarrow> string" where
  \<comment> \<open>\<open>'0x' + payload.subarray(start, end).reverse().toString('hex')\<close>\<close>
  "reversed_hex payload start fin = ''0x'' @ hex_of (rev (slice payload (int start) (int fin)))"

definition flag_set :: "nat option \<Rightarrow> nat \<Rightarrow> bool" where
  \<comment> \<open>\<open>(flags & mask) !== 0\<close> for a mask of one bit, \<open>2 ^ n\<close>; \<open>undefined & mask\<close> is 0\<close>
  "flag_set flags n = (case flags of None \<Rightarrow> False | Some f \<Rightarrow> (f div 2 ^ n) mod 2 = 1)"

fun msg_type :: "ParsedMessage \<Rightarrow> string" where
  "msg_type Ready = ''ready''"
| "msg_type (Version a b c d) = ''version''"
| "msg_type (Address a b c) = ''address''"
| "msg_type (DeviceAnnounce a b c) = ''deviceAnnounce''"
| "msg_type (NodeDescRsp a b c d) = ''nodeDescRsp''"
| "msg_type (ActiveEpRsp a b c d) = ''activeEpRsp''"
| "msg_type (ActiveEpReq a b) = ''activeEpReq''"
| "msg_type (SimpleDescRsp a b c d) = ''simpleDescRsp''"
| "msg_type (ZclInd a b c d e f) = ''zclInd''"
| "msg_type (ZclConf a b c) = ''zclConf''"
| "msg_type (ZclReq a b) = ''zclReq''"
| "msg_type (JoinPermitted a) = ''joinPermitted''"
| "msg_type (NetworkSettings a b c d e f) = ''networkSettings''"
| "msg_type (MgmtLqiRsp a b c d e f) = ''mgmtLqiRsp''"
| "msg_type (LinkTouchlink a b) = ''linkTouchlink''"
| "msg_type (ZdpIeeeAddrRsp a b c d e) = ''zdpIeeeAddrRsp''"
| "msg_type (Unknown a) = ''unknown''"

definition has_type :: "string \<Rightarrow> CommandMatcher" where
  \<comment> \<open>\<open>(msg) => msg.type === t\<close>\<close>
  "has_type t msg = (msg_type msg = t)"

text \<open>
  The \<open>switch\<close> of \<open>sendZdo\<close>: the command and the matcher for a cluster. They start as the
  empty string and \<open>() => false\<close>; a bind or unbind request with a destination mode other
  than 1 and 3 leaves the command empty.
\<close>

definition bind_command ::
  "(nat \<Rightarrow> string \<Rightarrow> nat option \<Rightarrow> nat \<Rightarrow> nat \<Rightarrow> string \<Rightarrow> nat option \<Rightarrow> string) \<Rightarrow>
   nat \<Rightarrow> Buffer \<Rightarrow> error + string" where
  "bind_command template networkAddress payload =
     (let srcIeee = reversed_hex payload 1 9;
          srcEndpoint = byte_at payload 9
      in and_then (readUInt16LE payload 10) (\<lambda>clusterIdFromPayload.
           let destAddrMode = byte_at payload 12
           in if destAddrMode = Some 3 then
                (let destIeee = reversed_hex payload 13 21;
                     destEndpoint = byte_at payload 21
                 in Inr (template networkAddress srcIeee srcEndpoint clusterIdFromPayload 3
                           destIeee destEndpoint))
              else if destAddrMode = Some 1 then
                and_then (readUInt16LE payload 13) (\<lambda>destGroup.
                  Inr (template networkAddress srcIeee srcEndpoint clusterIdFromPayload 1
                         (to_hex destGroup) (Some 0)))
              else Inr []))"

fun zdo_switch :: "ClusterId \<Rightarrow> nat \<Rightarrow> nat \<Rightarrow> Buffer \<Rightarrow> error + string \<times> CommandMatcher" where
  "zdo_switch NODE_DESCRIPTOR_REQUEST networkAddress seq payload =
     Inr (ZDP_NODE_DESC_REQ networkAddress seq, has_type ''nodeDescRsp'')"
| "zdo_switch ACTIVE_ENDPOINTS_REQUEST networkAddress seq payload =
     Inr (ZDP_ACTIVE_EP_REQ networkAddress seq, has_type ''activeEpRsp'')"
| "zdo_switch SIMPLE_DESCRIPTOR_REQUEST networkAddress seq payload =
     (let endpoint = byte_at payload 3
      in Inr (ZDP_SIMPLE_DESC_REQ networkAddress seq endpoint, has_type ''simpleDescRsp''))"
| "zdo_switch IEEE_ADDRESS_REQUEST networkAddress seq payload =
     Inr (ZDP_IEEE_ADDR_REQ networkAddress seq, has_type ''address'')"
| "zdo_switch LQI_TABLE_REQUEST networkAddress seq payload =
     (let startIndex = byte_at payload 0
      in Inr (ZDP_MGMT_LQI_REQ networkAddress startIndex, has_type ''mgmtLqiRsp''))"
| "zdo_switch BIND_REQUEST networkAddress seq payload =
     and_then (bind_command ZDP_BIND_REQ networkAddress payload) (\<lambda>command.
       Inr (command, \<lambda>msg. True))"
| "zdo_switch UNBIND_REQUEST networkAddress seq payload =
     and_then (bind_command ZDP_UNBIND_REQ networkAddress payload) (\<lambda>command.
       Inr (command, \<lambda>msg. True))"
| "zdo_switch LEAVE_REQUEST networkAddress seq payload =
     (let deviceIeee = reversed_hex payload 1 9;
          flags = byte_at payload 9;
          rejoin = flag_set flags 7;
          removeChildren = flag_set flags 6
      in Inr (ZDP_MGMT_LEAVE_REQ networkAddress deviceIeee rejoin removeChildren, \<lambda>msg. True))"
| "zdo_switch (OTHER_CLUSTER n) networkAddress seq payload = Inr ([], \<lambda>msg. False)"

text \<open>
  \<open>sendZdo\<close> from the call to its \<open>await\<close>: the sequence number is drawn, the coordinator
  address 0 is replaced by 1, the command is built, and it is either sent without a
  response or executed. The task says which promise the function awaits; what it returns
  after the response does not touch the transport and is not modelled.
\<close>

datatype zdo_task = AwaitSend nat | AwaitResponse nat

definition sendZdo ::
  "string \<Rightarrow> nat \<Rightarrow> ClusterId \<Rightarrow> Buffer \<Rightarrow> bool \<Rightarrow> string \<Rightarrow> HueBridgeAdapter \<Rightarrow>
   error + zdo_task \<times> HueBridgeAdapter" where
  "sendZdo ieeeAddress networkAddress clusterId payload disableResponse id' a =
     (let (seq, q1) = nextSequence (queue a);
          networkAddress = (if networkAddress = 0 then 1 else networkAddress)
      in and_then (zdo_switch clusterId networkAddress seq payload) (\<lambda>(command, matcher).
           if disableResponse \<and> command \<noteq> [] then
             (let (w, q2) = send command q1 in Inr (AwaitSend w, a\<lparr>queue := q2\<rparr>))
           else
             (let (h, q2) = execute command matcher DEFAULT_TIMEOUT id' q1
              in Inr (AwaitResponse h, a\<lparr>queue := q2\<rparr>))))"

subsection \<open>Example states\<close>

text \<open>
  A queue with three pending commands, registered in the order \<open>a\<close>, \<open>b\<close>, \<open>c\<close>: the first
  accepts an acknowledgement only, the other two accept every message. A queue with the
  first of them alone. An adapter that has just been constructed, and a frame that asks
  for a default response.
\<close>

definition three_pending :: CommandQueue where
  "three_pending =
     \<lparr>pending =
        [(''a'', \<lparr>pc_promise = 0, pc_matcher = is_zclReq, pc_timeout = 0, pc_command = []\<rparr>),
         (''b'', \<lparr>pc_promise = 1, pc_matcher = (\<lambda>msg. True), pc_timeout = 1, pc_command = []\<rparr>),
         (''c'', \<lparr>pc_promise = 2, pc_matcher = (\<lambda>msg. True), pc_timeout = 2, pc_command = []\<rparr>)],
      sequenceNumber = 0, trace = [], timers = [], write_cbs = [], clock = 0, next_handle = 3\<rparr>"


definition new_adapter :: HueBridgeAdapter where
  "new_adapter = \<lparr>queue = new_queue, waiters = [], currentID = 0\<rparr>"

definition on_off_frame :: ZclFrame where
  "on_off_frame =
     \<lparr>zf_buffer_hex = ''010a01'', zf_cluster_ID = 6, zf_command_response = None,
      zf_transactionSequenceNumber = 10, zf_disableDefaultResponse = False\<rparr>"

section \<open>Properties of the message parser\<close>

lemma startsWith_both:
  assumes "startsWith s p" and "startsWith s q"
  shows "startsWith p q \<or> startsWith q p"
proof (cases "length q \<le> length p")
  case True
  have "take (length q) p = take (length q) (take (length p) s)"
    using assms(1) by (simp add: startsWith_def)
  also have "\<dots> = take (length q) s" using True by (simp add: min_def)
  also have "\<dots> = q" using assms(2) by (simp add: startsWith_def)
  finally show ?thesis by (simp add: startsWith_def)
next
  case False
  have "take (length p) q = take (length p) (take (length q) s)"
    using assms(2) by (simp add: startsWith_def)
  also have "\<dots> = take (length p) s" using False by (simp add: min_def)
  also have "\<dots> = p" using assms(1) by (simp add: startsWith_def)
  finally show ?thesis by (simp add: startsWith_def)
qed

lemma startsWith_excl:
  "startsWith s p \<Longrightarrow> \<not> startsWith p q \<Longrightarrow> \<not> startsWith q p \<Longrightarrow> \<not> startsWith s q"
  using startsWith_both by blast

lemmas prefix_defs = TH_READY_def TH_GET_SW_VERSION_def CONNECTION_GET_ADDRESS_def
  BRIDGE_NETWORK_SETTINGS_def ZDP_JOIN_PERMITTED_def ZDP_DEVICE_ANNOUNCE_def ZDP_NODE_DESC_RSP_def
  ZDP_ACTIVE_EP_RSP_def ZDP_SIMPLE_DESC_RSP_def ZDP_MGMT_LQI_RSP_def ZDP_IEEE_ADDR_RSP_def
  ZCL_IND_def ZCL_CONF_def ZCL_REQ_def TOUCHLINK_def

text \<open>A line with the \<open>deviceAnnounce\<close> prefix, or with the \<open>zclInd\<close> prefix, has no other prefix.\<close>

lemma deviceAnnounce_prefix_only:
  assumes "startsWith message ZDP_DEVICE_ANNOUNCE"
  shows "\<not> startsWith message TH_READY" "\<not> startsWith message TH_GET_SW_VERSION"
    "\<not> startsWith message CONNECTION_GET_ADDRESS" "\<not> startsWith message ZDP_NODE_DESC_RSP"
    "\<not> startsWith message ZDP_ACTIVE_EP_RSP" "\<not> startsWith message ''[Zdp,SendActiveEndPointReq,''"
    "\<not> startsWith message ZDP_SIMPLE_DESC_RSP" "\<not> startsWith message ZCL_IND"
    "\<not> startsWith message ZCL_CONF" "\<not> startsWith message ZCL_REQ"
    "\<not> startsWith message ZDP_JOIN_PERMITTED" "\<not> startsWith message BRIDGE_NETWORK_SETTINGS"
    "\<not> startsWith message ZDP_MGMT_LQI_RSP" "\<not> startsWith message TOUCHLINK"
    "\<not> startsWith message ZDP_IEEE_ADDR_RSP"
  by (rule startsWith_excl [OF assms]; simp add: startsWith_def prefix_defs)+

lemma zclInd_prefix_only:
  assumes "startsWith message ZCL_IND"
  shows "\<not> startsWith message TH_READY" "\<not> startsWith message TH_GET_SW_VERSION"
    "\<not> startsWith message CONNECTION_GET_ADDRESS" "\<not> startsWith message ZDP_NODE_DESC_RSP"
    "\<not> startsWith message ZDP_ACTIVE_EP_RSP" "\<not> startsWith message ''[Zdp,SendActiveEndPointReq,''"
    "\<not> startsWith message ZDP_SIMPLE_DESC_RSP" "\<not> startsWith message ZDP_DEVICE_ANNOUNCE"
    "\<not> startsWith message ZCL_CONF" "\<not> startsWith message ZCL_REQ"
    "\<not> startsWith message ZDP_JOIN_PERMITTED" "\<not> startsWith message BRIDGE_NETWORK_SETTINGS"
    "\<not> startsWith message ZDP_MGMT_LQI_RSP" "\<not> startsWith message TOUCHLINK"
    "\<not> startsWith message ZDP_IEEE_ADDR_RSP"
  by (rule startsWith_excl [OF assms]; simp add: startsWith_def prefix_defs)+

text \<open>
  Claim C1 says that \<open>MessageParser.parse\<close> returns a message for every line and never
  raises, also for a truncated line with the prefix \<open>[Zdp,ReceivedIeeeAddrRsp\<close> or
  \<open>[Zdp,ReceivedNodeDescRsp\<close>. On the line that consists of the prefix alone, \<open>parts\<close> has two
  elements, \<open>parts[3]\<close> is \<open>undefined\<close>, and \<open>parts[3].match\<close> raises a \<open>TypeError\<close>: the parser
  raises on both lines.
\<close>

theorem parse_raises_on_truncated_line:
  "parse ''[Zdp,ReceivedIeeeAddrRsp'' = Inl TypeError \<and>
   parse ''[Zdp,ReceivedNodeDescRsp'' = Inl TypeError"
  by code_simp

text \<open>
  Claim C7: the line \<open>[Zdp,ReceivedDeviceAnnounce,S=0x0003.0,L=A4:C1:38:E3:B9:14:32:8B,128]\<close>
  is parsed to a \<open>deviceAnnounce\<close> message with network address 3, the address
  \<open>0xa4c138e3b914328b\<close> (colons removed, lower case, prefixed by \<open>0x\<close>) and capability 128.
\<close>

theorem parse_deviceAnnounce_line:
  "parse ''[Zdp,ReceivedDeviceAnnounce,S=0x0003.0,L=A4:C1:38:E3:B9:14:32:8B,128]'' =
     Inr (DeviceAnnounce (Num 3) ''0xa4c138e3b914328b'' (Num 128))"
  by code_simp

text \<open>
  Claim C9: a line that starts with the \<open>deviceAnnounce\<close> prefix, or with the \<open>zclInd\<close>
  prefix, and that the regular expression of its branch does not match, is returned as the
  \<open>unknown\<close> message that carries the line unchanged: not as a typed message, and without an
  exception.
\<close>

theorem parse_unmatched_body_is_unknown:
  "(startsWith message ZDP_DEVICE_ANNOUNCE \<and> rx_match rx_deviceAnnounce message = None
      \<longrightarrow> parse message = Inr (Unknown message)) \<and>
   (startsWith message ZCL_IND \<and> rx_match rx_zclInd message = None
      \<longrightarrow> parse message = Inr (Unknown message))"
proof (intro conjI impI)
  assume a: "startsWith message ZDP_DEVICE_ANNOUNCE \<and> rx_match rx_deviceAnnounce message = None"
  then have "parse_deviceAnnounce message = None" by (simp add: parse_deviceAnnounce_def)
  with a show "parse message = Inr (Unknown message)"
    using deviceAnnounce_prefix_only [of message] by (simp add: parse_def)
next
  assume a: "startsWith message ZCL_IND \<and> rx_match rx_zclInd message = None"
  then have "parse_zclInd message = None" by (simp add: parse_zclInd_def)
  with a show "parse message = Inr (Unknown message)"
    using zclInd_prefix_only [of message] by (simp add: parse_def)
qed

theorem parse_unmatched_body_is_unknown_witness:
  "(startsWith ''[Zdp,ReceivedDeviceAnnounce,nothing]'' ZDP_DEVICE_ANNOUNCE \<and>
    rx_match rx_deviceAnnounce ''[Zdp,ReceivedDeviceAnnounce,nothing]'' = None \<and>
    parse ''[Zdp,ReceivedDeviceAnnounce,nothing]'' =
      Inr (Unknown ''[Zdp,ReceivedDeviceAnnounce,nothing]'')) \<and>
   (startsWith ''[Zcl,Ind,S=0x0003.1,25]'' ZCL_IND \<and>
    rx_match rx_zclInd ''[Zcl,Ind,S=0x0003.1,25]'' = None \<and>
    parse ''[Zcl,Ind,S=0x0003.1,25]'' = Inr (Unknown ''[Zcl,Ind,S=0x0003.1,25]''))"
proof -
  have h1: "startsWith ''[Zdp,ReceivedDeviceAnnounce,nothing]'' ZDP_DEVICE_ANNOUNCE \<and>
    rx_match rx_deviceAnnounce ''[Zdp,ReceivedDeviceAnnounce,nothing]'' = None"
    by code_simp
  have h2: "startsWith ''[Zcl,Ind,S=0x0003.1,25]'' ZCL_IND \<and>
    rx_match rx_zclInd ''[Zcl,Ind,S=0x0003.1,25]'' = None"
    by code_simp
  show ?thesis
    using h1 h2 parse_unmatched_body_is_unknown [of "''[Zdp,ReceivedDeviceAnnounce,nothing]''"]
      parse_unmatched_body_is_unknown [of "''[Zcl,Ind,S=0x0003.1,25]''"]
    by blast
qed

section \<open>Properties of the command queue\<close>

subsection \<open>Closed forms of the loops\<close>

lemmas q_ops = log_def setTimeout_def clearTimeout_def pending_set_def pending_delete_def

lemma handle_loop_closed:
  "handle_loop es parsed q =
     (case List.find (\<lambda>(i, p). pc_matcher p parsed) es of
        None \<Rightarrow> q\<lparr>trace := trace q @ map (\<lambda>(i, p). MatcherCall i parsed) es @ [Emit parsed]\<rparr>
      | Some (i, p) \<Rightarrow>
          q\<lparr>pending := AList.delete i (pending q),
            timers := AList.delete (pc_timeout p) (timers q),
            trace := trace q @
              map (\<lambda>(i, p). MatcherCall i parsed) (takeWhile (\<lambda>(i, p). \<not> pc_matcher p parsed) es) @
              [MatcherCall i parsed, ClearTimeout (pc_timeout p), Resolve (pc_promise p) parsed]\<rparr>)"
proof (induction es arbitrary: q)
  case Nil
  then show ?case by (simp add: q_ops)
next
  case (Cons e es)
  obtain i p where e: "e = (i, p)" by (cases e)
  show ?case
  proof (cases "pc_matcher p parsed")
    case True
    then show ?thesis by (simp add: e q_ops)
  next
    case False
    then show ?thesis by (simp add: e Cons.IH q_ops split: option.splits)
  qed
qed

lemma clear_loop_closed:
  "clear_loop es q =
     q\<lparr>timers := filter (\<lambda>(h, cb). h \<notin> set (map (pc_timeout \<circ> snd) es)) (timers q),
       trace := trace q @
         concat (map (\<lambda>(i, p). [ClearTimeout (pc_timeout p), Reject (pc_promise p) cleared_error]) es)\<rparr>"
proof (induction es arbitrary: q)
  case Nil
  then show ?case by simp
next
  case (Cons e es)
  obtain i p where e: "e = (i, p)" by (cases e)
  have "filter (\<lambda>(h, cb). h \<notin> set (map (pc_timeout \<circ> snd) es)) (AList.delete (pc_timeout p) (timers q))
      = filter (\<lambda>(h, cb). h \<notin> set (map (pc_timeout \<circ> snd) (e # es))) (timers q)"
    by (auto simp: e AList.delete_eq intro!: filter_cong)
  then show ?case by (simp add: e Cons.IH q_ops)
qed

subsection \<open>Well-formedness is an invariant\<close>

lemma settled_handles_simps [simp]:
  "settled_handles [] = []"
  "settled_handles (e # tr) = (case settled_handle e of None \<Rightarrow> settled_handles tr | Some h \<Rightarrow> h # settled_handles tr)"
  "settled_handles (tr @ tr') = settled_handles tr @ settled_handles tr'"
  by (simp_all add: settled_handles_def List.map_filter_def split: option.splits)

lemma set_delete: "set (AList.delete k al) = {e \<in> set al. fst e \<noteq> k}"
  by (auto simp: AList.delete_eq)

lemma set_update_subset: "set (AList.update k v al) \<subseteq> insert (k, v) (set al)"
  by (induction al) auto

lemma distinct_map_delete: "distinct (map f al) \<Longrightarrow> distinct (map f (AList.delete k al))"
  by (simp add: AList.delete_eq distinct_map_filter)

lemma distinct_map_update:
  "distinct (map f al) \<Longrightarrow> f (k, v) \<notin> f ` set al \<Longrightarrow> distinct (map f (AList.update k v al))"
proof (induction al)
  case Nil then show ?case by simp
next
  case (Cons a al)
  have "set (AList.update k v al) \<subseteq> insert (k, v) (set al)" by (rule set_update_subset)
  with Cons show ?case by (auto simp: image_iff)
qed

lemma wf_iff:
  "wf q \<longleftrightarrow>
     distinct (map fst (pending q)) \<and>
     distinct (map (pc_promise \<circ> snd) (pending q)) \<and>
     (\<forall>i p. (i, p) \<in> set (pending q) \<longrightarrow>
        pc_promise p < next_handle q \<and> pc_timeout p = pc_promise p \<and>
        pc_promise p \<notin> set (settled_handles (trace q)) \<and>
        (\<forall>h cb. (h, cb) \<in> set (timers q) \<longrightarrow> cb_promise cb = pc_promise p \<longrightarrow> cb_id cb = i) \<and>
        (\<forall>w i'. (w, Some (i', pc_promise p)) \<in> set (write_cbs q) \<longrightarrow> i' = i)) \<and>
     (\<forall>h cb. (h, cb) \<in> set (timers q) \<longrightarrow> h < next_handle q \<and> cb_promise cb = h) \<and>
     (\<forall>w handler. (w, handler) \<in> set (write_cbs q) \<longrightarrow> w < next_handle q) \<and>
     (\<forall>w i' h. (w, Some (i', h)) \<in> set (write_cbs q) \<longrightarrow> h < next_handle q) \<and>
     (\<forall>h \<in> set (settled_handles (trace q)). h < next_handle q)"
  unfolding wf_def Ball_def
  apply (simp only: split_paired_All case_prod_conv option.split [where P="\<lambda>x. x"])
  apply (rule iffI)
   apply (simp; blast)
  apply (simp; blast)
  done

lemma wf_new: "wf new_queue" by (simp add: wf_iff new_queue_def)

lemma wf_advance: "wf q \<Longrightarrow> wf (advance d q)" by (simp add: wf_iff advance_def)

lemma wf_send: "wf q \<Longrightarrow> wf (snd (send c q))"
  unfolding wf_iff by (simp add: send_def Let_def q_ops) (fastforce simp: less_Suc_eq)


lemma settled_handles_calls [simp]:
  "settled_handles (map (\<lambda>(i, p). MatcherCall i parsed) es) = []"
  by (induction es) auto

lemma find_SomeD: "List.find P xs = Some x \<Longrightarrow> x \<in> set xs \<and> P x"
  by (induction xs) (auto split: if_splits)

lemma wf_handle_loop:
  assumes "wf q"
  shows "wf (handle_loop (pending q) parsed q)"
proof (cases "List.find (\<lambda>(i, p). pc_matcher p parsed) (pending q)")
  case None
  with assms show ?thesis
    unfolding wf_iff handle_loop_closed by (simp add: comp_def case_prod_beta)
next
  case (Some e)
  obtain i p where e: "e = (i, p)" by (cases e)
  have mem: "(i, p) \<in> set (pending q)"
    using Some e find_SomeD by fastforce
  have d: "distinct (map (pc_promise \<circ> snd) (pending q))" using assms by (simp add: wf_iff)
  have other: "pc_promise p' \<noteq> pc_promise p" if "(j, p') \<in> set (pending q)" "j \<noteq> i" for j p'
    using d mem that by (metis (no_types, lifting) comp_apply distinct_map inj_onD snd_conv fst_conv)
  show ?thesis
    using assms other mem unfolding wf_iff handle_loop_closed Some e
    by (simp add: comp_def case_prod_beta set_delete distinct_map_delete [unfolded comp_def] AList.distinct_delete)
       blast
qed


lemma wf_handleMessage: "wf q \<Longrightarrow> handleMessage message q = Inr q' \<Longrightarrow> wf q'"
  by (auto simp: handleMessage_def and_then_def wf_handle_loop split: sum.splits)

lemma settled_handles_clear [simp]:
  "settled_handles (concat (map (\<lambda>(i, p). [ClearTimeout (pc_timeout p), Reject (pc_promise p) cleared_error]) es))
     = map (pc_promise \<circ> snd) es"
  by (induction es) auto

lemma wf_clear: "wf q \<Longrightarrow> wf (clear q)"
  unfolding wf_iff clear_def clear_loop_closed by (simp; fastforce)

lemma map_of_SomeD': "map_of al k = Some v \<Longrightarrow> (k, v) \<in> set al"
  by (rule map_of_SomeD)

lemma wf_fire_timer:
  assumes "wf q" and "fire_timer h q = Some q'"
  shows "wf q'"
proof -
  obtain cb where cb: "map_of (timers q) h = Some cb" and due: "due cb \<le> clock q"
    and q': "q' = log (Reject (cb_promise cb) (timeout_error (cb_timeoutMs cb) (cb_command cb)))
                    (pending_delete (cb_id cb) (q\<lparr>timers := AList.delete h (timers q)\<rparr>))"
    using assms(2) by (auto simp: fire_timer_def split: option.splits if_splits)
  have mem: "(h, cb) \<in> set (timers q)" using cb by (rule map_of_SomeD)
  show ?thesis
    using assms(1) mem unfolding wf_iff q'
    by (simp add: q_ops set_delete distinct_map_delete AList.distinct_delete) blast
qed

lemma wf_write_done:
  assumes "wf q" and "write_done w err q = Some q'"
  shows "wf q'"
proof -
  obtain handler where hd: "map_of (write_cbs q) w = Some handler"
    using assms(2) by (auto simp: write_done_def split: option.splits)
  have mem: "(w, handler) \<in> set (write_cbs q)" using hd by (rule map_of_SomeD)
  show ?thesis
  proof (cases "\<exists>message i h. err = Some message \<and> handler = Some (i, h)")
    case True
    then obtain message i h where e: "err = Some message" "handler = Some (i, h)" by blast
    have q': "q' = log (Reject h (write_error message))
                     (pending_delete i (clearTimeout h (q\<lparr>write_cbs := AList.delete w (write_cbs q)\<rparr>)))"
      using assms(2) hd e by (simp add: write_done_def)
    show ?thesis
      using assms(1) mem e unfolding wf_iff q'
      by (simp add: q_ops set_delete distinct_map_delete AList.distinct_delete) blast
  next
    case False
    then have q': "q' = q\<lparr>write_cbs := AList.delete w (write_cbs q)\<rparr>"
      using assms(2) hd by (cases err; cases handler) (auto simp: write_done_def Let_def)
    show ?thesis
      using assms(1) unfolding wf_iff q' by (simp add: set_delete) blast
  qed
qed


lemma execute_closed:
  "execute command m t i q =
     (next_handle q,
      q\<lparr>next_handle := next_handle q + (if command = [] then 1 else 2),
        timers := timers q @ [(next_handle q, \<lparr>cb_id = i, cb_promise = next_handle q, cb_timeoutMs = t,
                                cb_command = command, due = clock q + t\<rparr>)],
        pending := AList.update i \<lparr>pc_promise = next_handle q, pc_matcher = m,
                                   pc_timeout = next_handle q, pc_command = command\<rparr> (pending q),
        trace := trace q @ SetTimeout (next_handle q) t #
                   (if command = [] then [] else [Write (command @ MESSAGE_TERMINATOR)]),
        write_cbs := (if command = [] then write_cbs q
                      else AList.update (next_handle q + 1) (Some (i, next_handle q))
                             (write_cbs q @ [(next_handle q + 1, None)]))\<rparr>)"
  by (simp add: execute_def send_def Let_def q_ops)

lemma update_append_fresh:
  "k \<notin> fst ` set al \<Longrightarrow> AList.update k v (al @ [(k, v0)]) = al @ [(k, v)]"
  by (induction al) auto

lemma wf_execute:
  assumes "wf q"
  shows "wf (snd (execute command m t i q))"
proof -
  let ?h = "next_handle q"
  let ?pc = "\<lparr>pc_promise = ?h, pc_matcher = m, pc_timeout = ?h, pc_command = command\<rparr>"
  let ?cb = "\<lparr>cb_id = i, cb_promise = ?h, cb_timeoutMs = t, cb_command = command, due = clock q + t\<rparr>"
  let ?q' = "snd (execute command m t i q)"
  have w: "distinct (map fst (pending q))" "distinct (map (pc_promise \<circ> snd) (pending q))"
    "\<And>j p. (j, p) \<in> set (pending q) \<Longrightarrow> pc_promise p < ?h"
    "\<And>j p. (j, p) \<in> set (pending q) \<Longrightarrow> pc_timeout p = pc_promise p"
    "\<And>j p. (j, p) \<in> set (pending q) \<Longrightarrow> pc_promise p \<notin> set (settled_handles (trace q))"
    "\<And>j p k cb. (j, p) \<in> set (pending q) \<Longrightarrow> (k, cb) \<in> set (timers q) \<Longrightarrow>
        cb_promise cb = pc_promise p \<Longrightarrow> cb_id cb = j"
    "\<And>j p w i'. (j, p) \<in> set (pending q) \<Longrightarrow> (w, Some (i', pc_promise p)) \<in> set (write_cbs q) \<Longrightarrow> i' = j"
    "\<And>k cb. (k, cb) \<in> set (timers q) \<Longrightarrow> k < ?h \<and> cb_promise cb = k"
    "\<And>w handler. (w, handler) \<in> set (write_cbs q) \<Longrightarrow> w < ?h"
    "\<And>w i' k. (w, Some (i', k)) \<in> set (write_cbs q) \<Longrightarrow> k < ?h"
    "\<And>k. k \<in> set (settled_handles (trace q)) \<Longrightarrow> k < ?h"
    using assms unfolding wf_iff by blast+
  have fresh_w: "Suc ?h \<notin> fst ` set (write_cbs q)"
    using w(9) by force
  have pend: "pending ?q' = AList.update i ?pc (pending q)"
    and tim: "timers ?q' = timers q @ [(?h, ?cb)]"
    and nh: "next_handle ?q' = ?h + (if command = [] then 1 else 2)"
    and tr: "settled_handles (trace ?q') = settled_handles (trace q)"
    and wcb: "write_cbs ?q' = (if command = [] then write_cbs q else write_cbs q @ [(Suc ?h, Some (i, ?h))])"
    by (simp_all add: execute_closed update_append_fresh [OF fresh_w])
  have sub: "(j, p) \<in> set (pending ?q') \<Longrightarrow> (j, p) = (i, ?pc) \<or> (j, p) \<in> set (pending q)" for j p
    using set_update_subset [of i ?pc "pending q"] unfolding pend by blast
  have fresh_p: "(pc_promise \<circ> snd) (i, ?pc) \<notin> (pc_promise \<circ> snd) ` set (pending q)"
    using w(3) by force
  have c1: "distinct (map fst (pending ?q'))"
    unfolding pend using w(1) by (simp add: AList.distinct_update)
  have c2: "distinct (map (pc_promise \<circ> snd) (pending ?q'))"
    unfolding pend using w(2) fresh_p by (rule distinct_map_update)
  have c3: "pc_promise p < next_handle ?q' \<and> pc_timeout p = pc_promise p \<and>
        pc_promise p \<notin> set (settled_handles (trace ?q')) \<and>
        (\<forall>k cb. (k, cb) \<in> set (timers ?q') \<longrightarrow> cb_promise cb = pc_promise p \<longrightarrow> cb_id cb = j) \<and>
        (\<forall>w i'. (w, Some (i', pc_promise p)) \<in> set (write_cbs ?q') \<longrightarrow> i' = j)"
    if "(j, p) \<in> set (pending ?q')" for j p
  proof -
    from sub [OF that] show ?thesis
    proof
      assume n: "(j, p) = (i, ?pc)"
      then have j: "j = i" and p: "p = ?pc" by simp_all
      have "?h \<notin> set (settled_handles (trace q))" using w(11) by blast
      moreover have "\<And>k cb. (k, cb) \<in> set (timers q) \<Longrightarrow> cb_promise cb \<noteq> ?h" using w(8) by force
      moreover have "\<And>w i'. (w, Some (i', ?h)) \<notin> set (write_cbs q)" using w(10) by force
      ultimately show ?thesis unfolding nh tr tim wcb j p by (auto split: if_splits)
    next
      assume o: "(j, p) \<in> set (pending q)"
      have "pc_promise p < ?h" using w(3) [OF o] .
      then show ?thesis
        unfolding nh tr tim wcb using w(4) [OF o] w(5) [OF o] w(6) [OF o] w(7) [OF o]
        by (auto split: if_splits)
    qed
  qed
  have c4: "k < next_handle ?q' \<and> cb_promise cb = k" if "(k, cb) \<in> set (timers ?q')" for k cb
    using that w(8) unfolding nh tim by (auto simp: less_Suc_eq)
  have c5: "w < next_handle ?q'" if "(w, handler) \<in> set (write_cbs ?q')" for w handler
    using that w(9) unfolding nh wcb by (auto simp: less_Suc_eq split: if_splits)
  have c6: "k < next_handle ?q'" if "(w, Some (i', k)) \<in> set (write_cbs ?q')" for w i' k
    using that w(10) unfolding nh wcb by (auto simp: less_Suc_eq split: if_splits)
  have c7: "k < next_handle ?q'" if "k \<in> set (settled_handles (trace ?q'))" for k
    using that w(11) unfolding nh tr by (auto simp: less_Suc_eq)
  show ?thesis
    unfolding wf_iff [of ?q'] using c1 c2 c3 c4 c5 c6 c7 by blast
qed

lemma wf_do_step: "wf q \<Longrightarrow> wf (do_step s q)"
proof (cases s)
  case (Incoming message)
  then show "wf q \<Longrightarrow> wf (do_step s q)"
    by (auto simp: wf_handleMessage split: sum.splits)
next
  case (TimerFires h)
  then show "wf q \<Longrightarrow> wf (do_step s q)"
    by (auto simp: wf_fire_timer split: option.splits)
next
  case (WriteDone w err)
  then show "wf q \<Longrightarrow> wf (do_step s q)"
    by (auto simp: wf_write_done split: option.splits)
qed (simp_all add: wf_advance wf_execute wf_send wf_clear)

lemma wf_run: "wf q \<Longrightarrow> wf (run ss q)"
  by (induction ss arbitrary: q) (simp_all add: wf_do_step)

subsection \<open>Traces and their observers\<close>

lemma new_events_append [simp]: "trace q' = trace q @ evs \<Longrightarrow> new_events q q' = evs"
  by (simp add: new_events_def)

lemma new_events_same [simp]: "new_events q q = []"
  by (simp add: new_events_def)

lemma settle_calls_simps [simp]:
  "settle_calls h [] = []"
  "settle_calls h (e # tr) = (case settles h e of None \<Rightarrow> settle_calls h tr | Some s \<Rightarrow> s # settle_calls h tr)"
  "settle_calls h (tr @ tr') = settle_calls h tr @ settle_calls h tr'"
  by (simp_all add: settle_calls_def List.map_filter_def split: option.splits)

lemma matcher_calls_simps [simp]:
  "matcher_calls [] = []"
  "matcher_calls (e # tr) = (case matcher_call e of None \<Rightarrow> matcher_calls tr | Some s \<Rightarrow> s # matcher_calls tr)"
  "matcher_calls (tr @ tr') = matcher_calls tr @ matcher_calls tr'"
  by (simp_all add: matcher_calls_def List.map_filter_def split: option.splits)

lemma emitted_simps [simp]:
  "emitted [] = []"
  "emitted (e # tr) = (case emit_of e of None \<Rightarrow> emitted tr | Some s \<Rightarrow> s # emitted tr)"
  "emitted (tr @ tr') = emitted tr @ emitted tr'"
  by (simp_all add: emitted_def List.map_filter_def split: option.splits)

lemma written_simps [simp]:
  "written [] = []"
  "written (e # tr) = (case write_of e of None \<Rightarrow> written tr | Some s \<Rightarrow> s # written tr)"
  "written (tr @ tr') = written tr @ written tr'"
  by (simp_all add: written_def List.map_filter_def split: option.splits)

lemma settle_calls_empty_iff: "settle_calls h tr = [] \<longleftrightarrow> h \<notin> set (settled_handles tr)"
proof (induction tr)
  case Nil then show ?case by simp
next
  case (Cons e tr) then show ?case by (cases e) auto
qed

lemma calls_of_matcher_calls [simp]:
  "matcher_calls (map (\<lambda>(i, p). MatcherCall i parsed) es) = map fst es"
  "emitted (map (\<lambda>(i, p). MatcherCall i parsed) es) = []"
  "settle_calls h (map (\<lambda>(i, p). MatcherCall i parsed) es) = []"
  by (induction es) auto




lemma update_fresh: "k \<notin> fst ` set al \<Longrightarrow> AList.update k v al = al @ [(k, v)]"
  by (induction al) auto

lemma find_update:
  "\<forall>e \<in> set al. \<not> P e \<Longrightarrow> P (k, v) \<Longrightarrow> List.find P (AList.update k v al) = Some (k, v)"
  by (induction al) auto

lemma find_append_Some: "List.find P xs = Some x \<Longrightarrow> List.find P (xs @ ys) = Some x"
  by (induction xs) (auto split: if_splits)

lemma outcome_fresh:
  "h \<notin> set (settled_handles tr) \<Longrightarrow> outcome h (tr @ tr') = outcome h tr'"
  by (simp add: outcome_def settle_calls_empty_iff [symmetric])

lemma filter_distinct_map:
  "distinct (map f xs) \<Longrightarrow> x \<in> set xs \<Longrightarrow> filter (\<lambda>y. f y = f x) xs = [x]"
proof (induction xs)
  case Nil then show ?case by simp
next
  case (Cons a xs)
  show ?case
  proof (cases "a = x")
    case True
    have "filter (\<lambda>y. f y = f x) xs = []"
      using Cons.prems(1) True by (auto simp: filter_empty_conv image_iff)
    with True show ?thesis by simp
  next
    case False
    with Cons show ?thesis by (auto simp: image_iff)
  qed
qed

lemma settle_calls_clear:
  "settle_calls h (concat (map (\<lambda>(i, p). [ClearTimeout (pc_timeout p), Reject (pc_promise p) cleared_error]) es))
     = map (\<lambda>e. Rejected cleared_error) (filter (\<lambda>e. (pc_promise \<circ> snd) e = h) es)"
  by (induction es) auto

lemma cleared_not_timeout: "cleared_error \<noteq> timeout_error timeoutMs command"
  by (simp add: cleared_error_def timeout_error_def)

subsection \<open>What one step changes\<close>


lemma fire_timer_closed:
  "fire_timer h q = Some q' \<Longrightarrow>
     \<exists>cb. (h, cb) \<in> set (timers q) \<and> map_of (timers q) h = Some cb \<and> due cb \<le> clock q \<and>
       q' = q\<lparr>timers := AList.delete h (timers q), pending := AList.delete (cb_id cb) (pending q),
              trace := trace q @ [Reject (cb_promise cb) (timeout_error (cb_timeoutMs cb) (cb_command cb))]\<rparr>"
  by (auto simp: fire_timer_def q_ops split: option.splits if_splits dest: map_of_SomeD)

lemma write_done_closed:
  "write_done w err q = Some q' \<Longrightarrow>
     (\<exists>message i h. err = Some message \<and> (w, Some (i, h)) \<in> set (write_cbs q) \<and>
        q' = q\<lparr>write_cbs := AList.delete w (write_cbs q), timers := AList.delete h (timers q),
               pending := AList.delete i (pending q),
               trace := trace q @ [ClearTimeout h, Reject h (write_error message)]\<rparr>) \<or>
     q' = q\<lparr>write_cbs := AList.delete w (write_cbs q)\<rparr>"
  by (cases err; cases "map_of (write_cbs q) w")
     (auto simp: write_done_def q_ops Let_def split: option.splits dest: map_of_SomeD)

lemma send_closed:
  "send command q =
     (next_handle q,
      q\<lparr>next_handle := next_handle q + 1, write_cbs := write_cbs q @ [(next_handle q, None)],
        trace := trace q @ [Write (command @ MESSAGE_TERMINATOR)]\<rparr>)"
  by (simp add: send_def Let_def q_ops)

lemma handleMessage_closed:
  "handleMessage message q = Inr q' \<Longrightarrow>
     \<exists>parsed. parse message = Inr parsed \<and>
       ((\<exists>i p. (i, p) \<in> set (pending q) \<and> pc_matcher p parsed \<and>
           q' = q\<lparr>pending := AList.delete i (pending q),
                  timers := AList.delete (pc_timeout p) (timers q),
                  trace := trace q @
                    map (\<lambda>(i, p). MatcherCall i parsed)
                      (takeWhile (\<lambda>(i, p). \<not> pc_matcher p parsed) (pending q)) @
                    [MatcherCall i parsed, ClearTimeout (pc_timeout p), Resolve (pc_promise p) parsed]\<rparr>) \<or>
        q' = q\<lparr>trace := trace q @ map (\<lambda>(i, p). MatcherCall i parsed) (pending q) @ [Emit parsed]\<rparr>)"
proof -
  assume a: "handleMessage message q = Inr q'"
  then obtain parsed where p: "parse message = Inr parsed" and q': "q' = handle_loop (pending q) parsed q"
    by (auto simp: handleMessage_def and_then_def split: sum.splits)
  show ?thesis
  proof (cases "List.find (\<lambda>(i, p). pc_matcher p parsed) (pending q)")
    case None
    then show ?thesis using p q' by (simp add: handle_loop_closed)
  next
    case (Some e)
    obtain i r where e: "e = (i, r)" by (cases e)
    have "(i, r) \<in> set (pending q) \<and> pc_matcher r parsed"
      using find_SomeD [OF Some] e by simp
    then show ?thesis using p q' Some e by (simp add: handle_loop_closed) blast
  qed
qed

lemma step_trace: "trace (do_step st q) = trace q @ new_events q (do_step st q)"
proof (cases st)
  case (Incoming message)
  then show ?thesis by (cases "handleMessage message q") (auto dest!: handleMessage_closed)
next
  case (TimerFires k)
  then show ?thesis by (cases "fire_timer k q") (auto dest!: fire_timer_closed)
next
  case (WriteDone w err)
  then show ?thesis by (cases "write_done w err q") (auto dest!: write_done_closed)
next
  case (Advance d) then show ?thesis by (simp add: advance_def)
next
  case (Execute c m t i) then show ?thesis by (simp add: execute_closed)
next
  case (Send c) then show ?thesis by (simp add: send_closed)
next
  case Clear then show ?thesis by (simp add: clear_def clear_loop_closed)
qed



















subsection \<open>The claims about the queue\<close>

text \<open>
  Claim C2: two commands are registered one after the other, and the parsed form of an
  incoming line satisfies the matchers of both. Then \<open>handleMessage\<close> resolves the command
  that was registered first with that message, and the command registered second is still
  in the pending map, its promise not settled. The identifiers are those that \<open>execute\<close>
  draws: the second is not a key of the map, and differs from the first; no command that
  was pending before the two accepts the message.
\<close>

theorem first_registered_wins:
  assumes "wf q0"
    and "execute command1 m1 t1 id1 q0 = (h1, q1)"
    and "execute command2 m2 t2 id2 q1 = (h2, q2)"
    and "id1 \<noteq> id2" and "id2 \<notin> fst ` set (pending q0)"
    and "\<forall>(j, r) \<in> set (pending q0). \<not> pc_matcher r parsed"
    and "parse message = Inr parsed" and "m1 parsed" and "m2 parsed"
  shows "\<exists>q3. handleMessage message q2 = Inr q3 \<and>
           outcome h1 (trace q3) = Some (Resolved parsed) \<and>
           outcome h2 (trace q3) = None \<and>
           map_of (pending q3) id1 = None \<and>
           map_of (pending q3) id2 =
             Some \<lparr>pc_promise = h2, pc_matcher = m2, pc_timeout = h2, pc_command = command2\<rparr>"
proof -
  let ?pc1 = "\<lparr>pc_promise = h1, pc_matcher = m1, pc_timeout = h1, pc_command = command1\<rparr>"
  let ?pc2 = "\<lparr>pc_promise = h2, pc_matcher = m2, pc_timeout = h2, pc_command = command2\<rparr>"
  let ?P = "\<lambda>(i, p). pc_matcher p parsed"
  have h1: "h1 = next_handle q0" and p1: "pending q1 = AList.update id1 ?pc1 (pending q0)"
    and n1: "next_handle q1 = next_handle q0 + (if command1 = [] then 1 else 2)"
    and s1: "settled_handles (trace q1) = settled_handles (trace q0)"
    using assms(2) by (auto simp: execute_closed)
  have h2: "h2 = next_handle q1" and p2: "pending q2 = AList.update id2 ?pc2 (pending q1)"
    and s2: "settled_handles (trace q2) = settled_handles (trace q1)"
    using assms(3) by (auto simp: execute_closed)
  have keys1: "fst ` set (pending q1) = {id1} \<union> fst ` set (pending q0)"
    unfolding p1 by (rule AList.dom_update)
  have p2': "pending q2 = pending q1 @ [(id2, ?pc2)]"
    unfolding p2 using assms(4,5) keys1 by (intro update_fresh) auto
  have f1: "List.find ?P (pending q1) = Some (id1, ?pc1)"
    unfolding p1 using assms(6,8) by (intro find_update) auto
  have f2: "List.find ?P (pending q2) = Some (id1, ?pc1)"
    unfolding p2' using f1 by (rule find_append_Some)
  define q3 where "q3 = handle_loop (pending q2) parsed q2"
  define calls where "calls = takeWhile (\<lambda>(i, p). \<not> pc_matcher p parsed) (pending q2)"
  have tr3': "trace q3 = trace q2 @
       map (\<lambda>(i, p). MatcherCall i parsed) calls @
       [MatcherCall id1 parsed, ClearTimeout h1, Resolve h1 parsed]"
    unfolding q3_def handle_loop_closed f2 calls_def by simp
  have p3: "pending q3 = AList.delete id1 (pending q2)"
    unfolding q3_def handle_loop_closed f2 by simp
  have fresh: "\<And>k. k \<in> set (settled_handles (trace q2)) \<Longrightarrow> k < next_handle q0"
    using assms(1) unfolding s2 s1 wf_iff by blast
  have nf1: "h1 \<notin> set (settled_handles (trace q2))" using fresh h1 by blast
  have nf2: "h2 \<notin> set (settled_handles (trace q2))" using fresh h2 n1 by fastforce
  have ne: "h2 \<noteq> h1" unfolding h2 n1 h1 by simp
  have o1: "outcome h1 (trace q3) = Some (Resolved parsed)"
    unfolding tr3' outcome_fresh [OF nf1] by (simp add: outcome_def)
  have o2: "outcome h2 (trace q3) = None"
    unfolding tr3' outcome_fresh [OF nf2] using ne by (simp add: outcome_def)
  have m1: "map_of (pending q3) id1 = None"
    unfolding p3 by (simp add: AList.delete_conv)
  have "id2 \<notin> fst ` set (pending q1)" using assms(4,5) keys1 by auto
  then have "map_of (pending q1) id2 = None" by (simp add: map_of_eq_None_iff)
  then have m2: "map_of (pending q3) id2 = Some ?pc2"
    unfolding p3 p2' using assms(4) by (simp add: AList.delete_conv map_add_def)
  have "handleMessage message q2 = Inr q3"
    by (simp add: handleMessage_def and_then_def assms(7) q3_def)
  with o1 o2 m1 m2 show ?thesis by blast
qed

theorem first_registered_wins_witness:
  "wf new_queue \<and> ''1-0.25'' \<noteq> ''1-0.75'' \<and> parse ''hello'' = Inr (Unknown ''hello'') \<and>
   (\<exists>q3. handleMessage ''hello''
            (snd (execute ''[TH,GetSwVersion]'' (\<lambda>msg. True) 5000 ''1-0.75''
               (snd (execute ''[Connection,GetAddress]'' (\<lambda>msg. True) 5000 ''1-0.25'' new_queue)))) = Inr q3 \<and>
      outcome 0 (trace q3) = Some (Resolved (Unknown ''hello'')) \<and>
      outcome 2 (trace q3) = None \<and>
      map_of (pending q3) ''1-0.25'' = None)"
proof -
  let ?q1 = "snd (execute ''[Connection,GetAddress]'' (\<lambda>msg. True) 5000 ''1-0.25'' new_queue)"
  let ?q2 = "snd (execute ''[TH,GetSwVersion]'' (\<lambda>msg. True) 5000 ''1-0.75'' ?q1)"
  have e1: "execute ''[Connection,GetAddress]'' (\<lambda>msg. True) 5000 ''1-0.25'' new_queue = (0, ?q1)"
    by (simp add: execute_closed new_queue_def)
  have e2: "execute ''[TH,GetSwVersion]'' (\<lambda>msg. True) 5000 ''1-0.75'' ?q1 = (2, ?q2)"
    by (simp add: execute_closed new_queue_def)
  have p: "parse ''hello'' = Inr (Unknown ''hello'')" by code_simp
  have n: "''1-0.25'' \<noteq> ''1-0.75''" by simp
  have f: "''1-0.75'' \<notin> fst ` set (pending new_queue)" by (simp add: new_queue_def)
  have o: "\<forall>(j, r) \<in> set (pending new_queue). \<not> pc_matcher r (Unknown ''hello'')"
    by (simp add: new_queue_def)
  from first_registered_wins [OF wf_new e1 e2 n f o p]
  show ?thesis using wf_new n p by blast
qed



lemma wf_three: "wf three_pending"
  by (simp add: wf_def three_pending_def)

text \<open>
  Claim C5: \<open>clear\<close> empties the pending map; for every command that was pending, it calls
  \<open>reject\<close> once, with the error \<open>Command queue cleared\<close>, which settles the promise, and
  its timer is no longer armed. That error differs from every timeout error. A command
  registered after \<open>clear\<close> has returned is pending and not settled.
\<close>

theorem clear_rejects_all_pending:
  assumes "wf q"
  shows "pending (clear q) = [] \<and>
    (\<forall>(i, p) \<in> set (pending q).
        settle_calls (pc_promise p) (new_events q (clear q)) = [Rejected cleared_error] \<and>
        outcome (pc_promise p) (trace (clear q)) = Some (Rejected cleared_error) \<and>
        map_of (timers (clear q)) (pc_timeout p) = None) \<and>
    (\<forall>timeoutMs command. cleared_error \<noteq> timeout_error timeoutMs command) \<and>
    (\<forall>command m timeoutMs i.
        outcome (fst (execute command m timeoutMs i (clear q)))
          (trace (snd (execute command m timeoutMs i (clear q)))) = None \<and>
        map_of (pending (snd (execute command m timeoutMs i (clear q)))) i =
          Some \<lparr>pc_promise = next_handle q, pc_matcher = m, pc_timeout = next_handle q,
                pc_command = command\<rparr>)"
proof (intro conjI ballI allI)
  show "pending (clear q) = []" by (simp add: clear_def)
next
  fix e assume e: "e \<in> set (pending q)"
  obtain i p where ip: "e = (i, p)" by (cases e)
  have d: "distinct (map (pc_promise \<circ> snd) (pending q))" using assms by (simp add: wf_iff)
  have f: "filter (\<lambda>y. (pc_promise \<circ> snd) y = (pc_promise \<circ> snd) e) (pending q) = [e]"
    using d e by (rule filter_distinct_map)
  have sc: "settle_calls (pc_promise p) (new_events q (clear q)) = [Rejected cleared_error]"
    using f by (simp add: clear_def clear_loop_closed settle_calls_clear ip)
  have un: "pc_promise p \<notin> set (settled_handles (trace q))"
    using assms e ip unfolding wf_iff by blast
  have tr: "trace (clear q) = trace q @ new_events q (clear q)"
    by (simp add: clear_def clear_loop_closed)
  have oc: "outcome (pc_promise p) (trace (clear q)) = Some (Rejected cleared_error)"
    by (subst tr, subst outcome_fresh [OF un]) (simp add: outcome_def sc)
  have "pc_timeout p \<notin> fst ` set (timers (clear q))"
    using e ip by (force simp: clear_def clear_loop_closed)
  then have tm: "map_of (timers (clear q)) (pc_timeout p) = None"
    by (simp add: map_of_eq_None_iff)
  show "case e of (i, p) \<Rightarrow>
        settle_calls (pc_promise p) (new_events q (clear q)) = [Rejected cleared_error] \<and>
        outcome (pc_promise p) (trace (clear q)) = Some (Rejected cleared_error) \<and>
        map_of (timers (clear q)) (pc_timeout p) = None"
    using sc oc tm by (simp add: ip)
next
  fix timeoutMs command
  show "cleared_error \<noteq> timeout_error timeoutMs command" by (rule cleared_not_timeout)
next
  fix command m timeoutMs i
  have w: "wf (clear q)" using assms by (rule wf_clear)
  have nh: "next_handle (clear q) = next_handle q" by (simp add: clear_def clear_loop_closed)
  have un: "next_handle (clear q) \<notin> set (settled_handles (trace (clear q)))"
    using w unfolding wf_iff by blast
  show "outcome (fst (execute command m timeoutMs i (clear q)))
          (trace (snd (execute command m timeoutMs i (clear q)))) = None"
    by (simp add: execute_closed outcome_fresh [OF un]) (simp add: outcome_def)
  show "map_of (pending (snd (execute command m timeoutMs i (clear q)))) i =
          Some \<lparr>pc_promise = next_handle q, pc_matcher = m, pc_timeout = next_handle q,
                pc_command = command\<rparr>"
    by (simp add: execute_closed nh AList.update_conv')
qed

theorem clear_rejects_all_pending_witness:
  "wf three_pending \<and> pending (clear three_pending) = [] \<and>
   settle_calls 1 (new_events three_pending (clear three_pending)) = [Rejected cleared_error] \<and>
   outcome 1 (trace (clear three_pending)) = Some (Rejected cleared_error) \<and>
   map_of (timers (clear three_pending)) 1 = None \<and>
   outcome (fst (execute ''[TH,GetSwVersion]'' (\<lambda>msg. True) 5000 ''1-0.25'' (clear three_pending)))
     (trace (snd (execute ''[TH,GetSwVersion]'' (\<lambda>msg. True) 5000 ''1-0.25'' (clear three_pending)))) = None"
proof -
  let ?pb = "\<lparr>pc_promise = 1, pc_matcher = (\<lambda>msg. True), pc_timeout = 1, pc_command = []\<rparr>"
  have m: "(''b'', ?pb) \<in> set (pending three_pending)" by (simp add: three_pending_def)
  from clear_rejects_all_pending [OF wf_three] m
  show ?thesis using wf_three by fastforce
qed





section \<open>Properties of the adapter\<close>

lemma hex4_1: "hex4 1 = ''0001''" "hex4 (Suc 0) = ''0001''"
  by code_simp+

lemma to_dec_1: "to_dec 1 = ''1''" "to_dec (Suc 0) = ''1''"
  by code_simp+

lemma bind_command_form:
  assumes "bind_command template 1 payload = Inr command"
    and "\<And>a b c d e f. \<exists>name rest. template 1 a b c d e f = ''[Zdp,'' @ name @ '',S=0x0001.0'' @ rest"
  shows "command = [] \<or> (\<exists>name rest. command = ''[Zdp,'' @ name @ '',S=0x0001.0'' @ rest)"
  using assms
  by (auto simp: bind_command_def and_then_def Let_def split: sum.splits if_splits)

lemma bind_template:
  "\<exists>name rest. ZDP_BIND_REQ 1 a b c d e f = ''[Zdp,'' @ name @ '',S=0x0001.0'' @ rest"
  by (rule exI [of _ "''SendBindReq''"]) (simp add: ZDP_BIND_REQ_def hex4_1)

lemma unbind_template:
  "\<exists>name rest. ZDP_UNBIND_REQ 1 a b c d e f = ''[Zdp,'' @ name @ '',S=0x0001.0'' @ rest"
  by (rule exI [of _ "''SendUnbindReq''"]) (simp add: ZDP_UNBIND_REQ_def hex4_1)

lemma zdo_switch_form:
  assumes "zdo_switch clusterId 1 seq payload = Inr (command, m)"
  shows "command = [] \<or> (\<exists>name rest. command = ''[Zdp,'' @ name @ '',S=0x0001.0'' @ rest)"
proof (cases clusterId)
  case NODE_DESCRIPTOR_REQUEST
  then have "command = ''[Zdp,'' @ ''SendNodeDescReq'' @ '',S=0x0001.0'' @ '',1]''"
    using assms by (simp add: ZDP_NODE_DESC_REQ_def hex4_1 to_dec_1)
  then show ?thesis by blast
next
  case ACTIVE_ENDPOINTS_REQUEST
  then have "command = ''[Zdp,'' @ ''SendActiveEndPointReq'' @ '',S=0x0001.0'' @ '',1]''"
    using assms by (simp add: ZDP_ACTIVE_EP_REQ_def hex4_1 to_dec_1)
  then show ?thesis by blast
next
  case SIMPLE_DESCRIPTOR_REQUEST
  then have "command = ''[Zdp,'' @ ''SendSimpleDescReq'' @ '',S=0x0001.0'' @
      ('',1,'' @ opt_dec (byte_at payload 3) @ '']'')"
    using assms by (simp add: ZDP_SIMPLE_DESC_REQ_def hex4_1 to_dec_1)
  then show ?thesis by blast
next
  case IEEE_ADDRESS_REQUEST
  then have "command = ''[Zdp,'' @ ''IeeeAddrReq'' @ '',S=0x0001.0'' @ ('','' @ to_dec seq @ '']'')"
    using assms by (simp add: ZDP_IEEE_ADDR_REQ_def hex4_1)
  then show ?thesis by blast
next
  case LQI_TABLE_REQUEST
  then have "command = ''[Zdp,'' @ ''SendMgmtLqiReq'' @ '',S=0x0001.0'' @
      ('','' @ opt_dec (byte_at payload 0) @ '']'')"
    using assms by (simp add: ZDP_MGMT_LQI_REQ_def hex4_1)
  then show ?thesis by blast
next
  case BIND_REQUEST
  then obtain c where "bind_command ZDP_BIND_REQ 1 payload = Inr c" "command = c"
    using assms by (auto simp: and_then_def split: sum.splits)
  then show ?thesis using bind_command_form [of ZDP_BIND_REQ payload c] bind_template by blast
next
  case UNBIND_REQUEST
  then obtain c where "bind_command ZDP_UNBIND_REQ 1 payload = Inr c" "command = c"
    using assms by (auto simp: and_then_def split: sum.splits)
  then show ?thesis using bind_command_form [of ZDP_UNBIND_REQ payload c] unbind_template by blast
next
  case LEAVE_REQUEST
  then have "command = ''[Zdp,'' @ ''SendMgmtLeaveReq'' @ '',S=0x0001.0'' @
      ('',L='' @ formatIeee (reversed_hex payload 1 9) @ '','' @ bool_text (flag_set (byte_at payload 9) 7) @
       '','' @ bool_text (flag_set (byte_at payload 9) 6) @ '']'')"
    using assms by (simp add: ZDP_MGMT_LEAVE_REQ_def hex4_1 Let_def)
  then show ?thesis by blast
next
  case (OTHER_CLUSTER n)
  then show ?thesis using assms by simp
qed

lemma zdo_switch_total:
  "clusterId \<in> {NODE_DESCRIPTOR_REQUEST, ACTIVE_ENDPOINTS_REQUEST, SIMPLE_DESCRIPTOR_REQUEST,
                 IEEE_ADDRESS_REQUEST, LQI_TABLE_REQUEST, LEAVE_REQUEST} \<Longrightarrow>
   \<exists>command m. zdo_switch clusterId 1 seq payload = Inr (command, m) \<and> command \<noteq> []"
  by (auto simp: ZDP_NODE_DESC_REQ_def ZDP_ACTIVE_EP_REQ_def ZDP_SIMPLE_DESC_REQ_def
        ZDP_IEEE_ADDR_REQ_def ZDP_MGMT_LQI_REQ_def ZDP_MGMT_LEAVE_REQ_def Let_def)

lemma no_waiter_calls [simp]:
  "\<not> list_ex (waiter_resolved w) (map (\<lambda>(i, p). MatcherCall i parsed) es)"
  by (induction es) auto

lemma no_waiter_clear [simp]:
  "\<not> list_ex (waiter_resolved w)
      (concat (map (\<lambda>(i, p). [ClearTimeout (pc_timeout p), Reject (pc_promise p) cleared_error]) es))"
  by (induction es) auto

lemma do_step_no_waiter: "\<not> list_ex (waiter_resolved w) (new_events q (do_step st q))"
proof (cases st)
  case (Incoming message)
  show ?thesis
  proof (cases "handleMessage message q")
    case (Inl e) then show ?thesis using Incoming by simp
  next
    case (Inr q')
    from handleMessage_closed [OF Inr] show ?thesis
      using Incoming Inr by (elim exE conjE disjE) simp_all
  qed
next
  case (TimerFires k)
  show ?thesis
  proof (cases "fire_timer k q")
    case None then show ?thesis using TimerFires by simp
  next
    case (Some q')
    from fire_timer_closed [OF Some] show ?thesis
      using TimerFires Some by (elim exE conjE) simp
  qed
next
  case (WriteDone w' err)
  show ?thesis
  proof (cases "write_done w' err q")
    case None then show ?thesis using WriteDone by simp
  next
    case (Some q')
    from write_done_closed [OF Some] show ?thesis
      using WriteDone Some by (elim exE conjE disjE) simp_all
  qed
next
  case (Advance d) then show ?thesis by (simp add: advance_def)
next
  case (Execute c m t i) then show ?thesis by (simp add: execute_closed)
next
  case (Send c) then show ?thesis by (simp add: send_closed)
next
  case Clear then show ?thesis by (simp add: clear_def clear_loop_closed)
qed

lemma adapter_do_trace:
  "trace (queue (adapter_do s a)) = trace (queue a) @ new_events (queue a) (queue (adapter_do s a))"
proof (cases s)
  case (QueueStep st)
  then have eq: "queue (adapter_do s a) = do_step st (queue a)" by simp
  show ?thesis unfolding eq by (rule step_trace)
next
  case (Indication payload)
  then show ?thesis by (auto simp: waitress_resolve_def notice_def log_def split: option.splits)
next
  case (NewWaiter m t)
  then show ?thesis by (simp add: waitress_waitFor_def notice_def log_def Let_def)
next
  case (CancelWaiter ID)
  then show ?thesis by (simp add: waitress_remove_def notice_def log_def)
qed

lemma adapter_do_gone:
  assumes "w < currentID a" and "w \<notin> fst ` set (waiters a)"
  shows "w < currentID (adapter_do s a) \<and> w \<notin> fst ` set (waiters (adapter_do s a)) \<and>
         \<not> list_ex (waiter_resolved w) (new_events (queue a) (queue (adapter_do s a)))"
proof (cases s)
  case (QueueStep st)
  then show ?thesis using assms do_step_no_waiter [of w "queue a" st] by simp
next
  case (Indication payload)
  show ?thesis
  proof (cases "List.find (\<lambda>(ID, matcher). waitressValidator payload matcher) (waiters a)")
    case None
    then show ?thesis using assms Indication by (simp add: waitress_resolve_def)
  next
    case (Some e)
    obtain ID m where e: "e = (ID, m)" by (cases e)
    have "(ID, m) \<in> set (waiters a)" using find_SomeD [OF Some] e by simp
    then have "ID \<noteq> w" using assms(2) by force
    then show ?thesis using assms Indication Some e
      by (auto simp: waitress_resolve_def notice_def log_def set_delete)
  qed
next
  case (NewWaiter m t)
  then show ?thesis using assms
    by (auto simp: waitress_waitFor_def notice_def log_def Let_def)
next
  case (CancelWaiter ID)
  then show ?thesis using assms
    by (auto simp: waitress_remove_def notice_def log_def set_delete)
qed

lemma adapter_run_trace:
  assumes "w < currentID a" and "w \<notin> fst ` set (waiters a)"
  shows "\<exists>evs. trace (queue (adapter_run steps a)) = trace (queue a) @ evs \<and>
           \<not> list_ex (waiter_resolved w) evs"
  using assms
proof (induction steps arbitrary: a)
  case Nil then show ?case by simp
next
  case (Cons s steps)
  note g = adapter_do_gone [OF Cons.prems, of s]
  from Cons.IH [of "adapter_do s a"] g obtain evs
    where e: "trace (queue (adapter_run steps (adapter_do s a))) = trace (queue (adapter_do s a)) @ evs"
      and n: "\<not> list_ex (waiter_resolved w) evs"
    by blast
  have "trace (queue (adapter_run (s # steps) a)) = trace (queue (adapter_do s a)) @ evs"
    using e by simp
  also have "\<dots> = (trace (queue a) @ new_events (queue a) (queue (adapter_do s a))) @ evs"
    by (subst adapter_do_trace) (rule refl)
  finally have "trace (queue (adapter_run (s # steps) a)) =
      trace (queue a) @ (new_events (queue a) (queue (adapter_do s a)) @ evs)"
    by (simp only: append_assoc)
  moreover have "\<not> list_ex (waiter_resolved w) (new_events (queue a) (queue (adapter_do s a)) @ evs)"
    using g n by simp
  ultimately show ?case by blast
qed

lemma adapter_run_gone:
  assumes "w < currentID a" and "w \<notin> fst ` set (waiters a)"
  shows "\<not> list_ex (waiter_resolved w) (new_events (queue a) (queue (adapter_run steps a)))"
proof -
  from adapter_run_trace [OF assms, of steps] obtain evs
    where "trace (queue (adapter_run steps a)) = trace (queue a) @ evs"
      and "\<not> list_ex (waiter_resolved w) evs" by blast
  then show ?thesis by simp
qed

lemma cancel_removes:
  "waiters (cancel (Some w) a) = AList.delete w (waiters a)"
  "currentID (cancel (Some w) a) = currentID a"
  by (simp_all add: cancel_def waitress_remove_def notice_def)

lemma delete_not_key: "w \<notin> fst ` set (AList.delete w al)"
  by (auto simp: set_delete)

text \<open>
  Claim C4: \<open>sendZclFrameToEndpoint\<close> is called with \<open>disableResponse\<close> false for a frame
  that expects a response or a default response. Then the waiter is registered before the
  command is written to the port. When a later phase fails (the acknowledgement or the
  confirmation is rejected, the confirmation carries a status other than 0, or the
  waiter's promise is rejected), the call throws an error and the waiter has been removed
  from the registry; and a waiter that has been removed is never resolved afterwards.
\<close>

theorem sendZclFrameToEndpoint_cancels_waiter:
  assumes "\<not> disableResponse"
    and "zf_command_response zclFrame \<noteq> None \<or> \<not> zf_disableDefaultResponse zclFrame"
    and "sendZclFrameToEndpoint ieeeAddr networkAddress endpoint zclFrame timeout disableResponse
           disableRecovery sourceEndpoint defaultRspID id1 a0 = (task, a1)"
  shows "\<exists>w h command.
      w = currentID a0 \<and> task = AwaitAck (Some w) h timeout \<and>
      new_events (queue a0) (queue a1) =
        [WaiterRegistered w, SetTimeout h DEFAULT_TIMEOUT, Write (command @ MESSAGE_TERMINATOR)] \<and>
      (\<forall>a. w < currentID a \<longrightarrow>
         (\<forall>error id2. \<exists>a'. zcl_after_ack (Some w) timeout (Rejected error) id2 a = (Thrown error, a') \<and>
              w \<notin> fst ` set (waiters a') \<and> w < currentID a') \<and>
         (\<forall>error. \<exists>a'. zcl_after_conf (Some w) (Rejected error) a = (Thrown error, a') \<and>
              w \<notin> fst ` set (waiters a') \<and> w < currentID a') \<and>
         (\<forall>ep sq status. \<not> strict_eq status (Num 0) \<longrightarrow>
            (\<exists>a'. zcl_after_conf (Some w) (Resolved (ZclConf ep sq status)) a =
                    (Thrown (Error (''ZCL command failed with status '' @ num_text status)), a') \<and>
              w \<notin> fst ` set (waiters a') \<and> w < currentID a')) \<and>
         (\<forall>error. \<exists>a'. zcl_after_ind w (Inl error) a = (Thrown error, a') \<and>
              w \<notin> fst ` set (waiters a') \<and> w < currentID a')) \<and>
      (\<forall>a'. w < currentID a' \<and> w \<notin> fst ` set (waiters a') \<longrightarrow>
         (\<forall>steps. \<not> list_ex (waiter_resolved w)
                     (new_events (queue a') (queue (adapter_run steps a')))))"
proof -
  let ?w = "currentID a0"
  let ?command = "ZCL_REQ_UNICAST networkAddress endpoint
                      (case sourceEndpoint of None \<Rightarrow> 64 | Some e \<Rightarrow> if e = 0 then 64 else e)
                      (zf_cluster_ID zclFrame) (toUpperCase (zf_buffer_hex zclFrame))"
  have ne: "?command \<noteq> []" by (simp add: ZCL_REQ_UNICAST_def)
  have start: "task = AwaitAck (Some ?w) (next_handle (queue a0)) timeout \<and>
      new_events (queue a0) (queue a1) =
        [WaiterRegistered ?w, SetTimeout (next_handle (queue a0)) DEFAULT_TIMEOUT,
         Write (?command @ MESSAGE_TERMINATOR)]"
  proof (cases "zf_command_response zclFrame")
    case None
    then have "\<not> zf_disableDefaultResponse zclFrame" using assms(2) by simp
    then show ?thesis
      using assms(1,3) None ne
      by (auto simp: sendZclFrameToEndpoint_def waitFor_def waitress_waitFor_def notice_def log_def
            Let_def execute_closed new_events_def)
  next
    case (Some response)
    then show ?thesis
      using assms(1,3) ne
      by (auto simp: sendZclFrameToEndpoint_def waitFor_def waitress_waitFor_def notice_def log_def
            Let_def execute_closed new_events_def)
  qed
  have fail: "(\<forall>error id2. \<exists>a'. zcl_after_ack (Some ?w) timeout (Rejected error) id2 a = (Thrown error, a') \<and>
              ?w \<notin> fst ` set (waiters a') \<and> ?w < currentID a') \<and>
         (\<forall>error. \<exists>a'. zcl_after_conf (Some ?w) (Rejected error) a = (Thrown error, a') \<and>
              ?w \<notin> fst ` set (waiters a') \<and> ?w < currentID a') \<and>
         (\<forall>ep sq status. \<not> strict_eq status (Num 0) \<longrightarrow>
            (\<exists>a'. zcl_after_conf (Some ?w) (Resolved (ZclConf ep sq status)) a =
                    (Thrown (Error (''ZCL command failed with status '' @ num_text status)), a') \<and>
              ?w \<notin> fst ` set (waiters a') \<and> ?w < currentID a')) \<and>
         (\<forall>error. \<exists>a'. zcl_after_ind ?w (Inl error) a = (Thrown error, a') \<and>
              ?w \<notin> fst ` set (waiters a') \<and> ?w < currentID a')"
    if "?w < currentID a" for a
    using that
    by (simp add: zcl_after_ack_def zcl_after_conf_def zcl_after_ind_def cancel_removes
          delete_not_key Let_def)
  have never: "\<forall>steps. \<not> list_ex (waiter_resolved ?w)
                     (new_events (queue a') (queue (adapter_run steps a')))"
    if "?w < currentID a' \<and> ?w \<notin> fst ` set (waiters a')" for a'
    using that adapter_run_gone [of ?w a'] by blast
  show ?thesis using start fail never by blast
qed

theorem sendZclFrameToEndpoint_cancels_waiter_witness:
  "zf_command_response on_off_frame = None \<and>
   zf_disableDefaultResponse on_off_frame = False \<and>
   (0 :: nat) < currentID (snd (sendZclFrameToEndpoint ''0x00158d0000732d27'' 3 1 on_off_frame 10000 False
                                 False None 11 ''1-0.5'' new_adapter)) \<and>
   strict_eq (Num 1) (Num 0) = False \<and>
   (\<exists>h command.
      fst (sendZclFrameToEndpoint ''0x00158d0000732d27'' 3 1 on_off_frame 10000 False False None 11
             ''1-0.5'' new_adapter) = AwaitAck (Some 0) h 10000 \<and>
      new_events (queue new_adapter)
        (queue (snd (sendZclFrameToEndpoint ''0x00158d0000732d27'' 3 1 on_off_frame 10000 False False
                       None 11 ''1-0.5'' new_adapter))) =
        [WaiterRegistered 0, SetTimeout h DEFAULT_TIMEOUT, Write (command @ MESSAGE_TERMINATOR)]) \<and>
   (\<exists>a'. zcl_after_conf (Some 0) (Resolved (ZclConf (Num 64) (Num 21) (Num 1)))
            (snd (sendZclFrameToEndpoint ''0x00158d0000732d27'' 3 1 on_off_frame 10000 False False
                    None 11 ''1-0.5'' new_adapter)) =
            (Thrown (Error (''ZCL command failed with status '' @ num_text (Num 1))), a') \<and>
      0 \<notin> fst ` set (waiters a') \<and>
      list_ex (waiter_resolved 0)
        (new_events (queue a')
           (queue (adapter_run
              [Indication \<lparr>zp_clusterID = 6, zp_address = 3, zp_endpoint = 1,
                 zp_header = Some \<lparr>h_transactionSequenceNumber = 10, h_commandIdentifier = 11\<rparr>\<rparr>] a'))) = False)"
proof -
  let ?r = "sendZclFrameToEndpoint ''0x00158d0000732d27'' 3 1 on_off_frame 10000 False False None 11
              ''1-0.5'' new_adapter"
  let ?ind = "[Indication \<lparr>zp_clusterID = 6, zp_address = 3, zp_endpoint = 1,
                 zp_header = Some \<lparr>h_transactionSequenceNumber = 10, h_commandIdentifier = 11\<rparr>\<rparr>]"
  have r: "?r = (fst ?r, snd ?r)" by simp
  have a1: "zf_command_response on_off_frame = None"
    and a2: "zf_disableDefaultResponse on_off_frame = False"
    by (simp_all add: on_off_frame_def)
  have hyp2: "zf_command_response on_off_frame \<noteq> None \<or> \<not> zf_disableDefaultResponse on_off_frame"
    using a2 by simp
  have cur: "(0 :: nat) < currentID (snd ?r)"
    by (simp add: sendZclFrameToEndpoint_def on_off_frame_def waitFor_def waitress_waitFor_def
          notice_def new_adapter_def Let_def case_prod_beta)
  have ne: "strict_eq (Num 1) (Num 0) = False" by (simp add: strict_eq_def)
  have c0: "currentID new_adapter = 0" by (simp add: new_adapter_def)
  from sendZclFrameToEndpoint_cancels_waiter [OF _ hyp2 r, simplified c0]
  obtain h command where
    s: "fst ?r = AwaitAck (Some 0) h 10000"
       "new_events (queue new_adapter) (queue (snd ?r)) =
          [WaiterRegistered 0, SetTimeout h DEFAULT_TIMEOUT, Write (command @ MESSAGE_TERMINATOR)]"
    and fl: "\<And>a. 0 < currentID a \<Longrightarrow>
         (\<forall>ep sq status. \<not> strict_eq status (Num 0) \<longrightarrow>
            (\<exists>a'. zcl_after_conf (Some 0) (Resolved (ZclConf ep sq status)) a =
                    (Thrown (Error (''ZCL command failed with status '' @ num_text status)), a') \<and>
              0 \<notin> fst ` set (waiters a') \<and> 0 < currentID a'))"
    and nv: "\<And>a'. 0 < currentID a' \<and> 0 \<notin> fst ` set (waiters a') \<Longrightarrow>
         (\<forall>steps. \<not> list_ex (waiter_resolved 0)
                     (new_events (queue a') (queue (adapter_run steps a'))))"
    by (auto simp: )
  from fl [OF cur] ne obtain a' where
    f: "zcl_after_conf (Some 0) (Resolved (ZclConf (Num 64) (Num 21) (Num 1))) (snd ?r) =
          (Thrown (Error (''ZCL command failed with status '' @ num_text (Num 1))), a')"
      "0 \<notin> fst ` set (waiters a')" "0 < currentID a'"
    by blast
  from nv [of a'] f(2,3)
  have "list_ex (waiter_resolved 0) (new_events (queue a') (queue (adapter_run ?ind a'))) = False"
    by blast
  with f(1,2) s a1 a2 cur ne show ?thesis by blast
qed

text \<open>
  Claim C10: \<open>sendZdo\<close> with the network address 0 does what it does with the address 1.
  Every line that it writes to the port then has the form \<open>[Zdp,name,S=0x0001.0...\<close>, for
  every cluster and payload; and for the clusters whose command does not depend on the
  length of the payload it does write one line.
\<close>

theorem sendZdo_rewrites_coordinator_address:
  "sendZdo ieeeAddress 0 clusterId payload disableResponse id' a =
     sendZdo ieeeAddress 1 clusterId payload disableResponse id' a \<and>
   (\<forall>task a'. sendZdo ieeeAddress 0 clusterId payload disableResponse id' a = Inr (task, a') \<longrightarrow>
      (\<forall>d \<in> set (written (new_events (queue a) (queue a'))).
         \<exists>name rest. d = ''[Zdp,'' @ name @ '',S=0x0001.0'' @ rest)) \<and>
   (clusterId \<in> {NODE_DESCRIPTOR_REQUEST, ACTIVE_ENDPOINTS_REQUEST, SIMPLE_DESCRIPTOR_REQUEST,
                  IEEE_ADDRESS_REQUEST, LQI_TABLE_REQUEST, LEAVE_REQUEST} \<longrightarrow>
      (\<exists>task a' d. sendZdo ieeeAddress 0 clusterId payload disableResponse id' a = Inr (task, a') \<and>
         written (new_events (queue a) (queue a')) = [d]))"
proof (intro conjI allI impI)
  show "sendZdo ieeeAddress 0 clusterId payload disableResponse id' a =
     sendZdo ieeeAddress 1 clusterId payload disableResponse id' a"
    by (simp add: sendZdo_def)
next
  fix task a'
  assume r: "sendZdo ieeeAddress 0 clusterId payload disableResponse id' a = Inr (task, a')"
  let ?q1 = "snd (nextSequence (queue a))"
  let ?seq = "fst (nextSequence (queue a))"
  have tq1: "trace ?q1 = trace (queue a)" by (simp add: nextSequence_def)
  from r obtain command m where sw: "zdo_switch clusterId 1 ?seq payload = Inr (command, m)"
    by (auto simp: sendZdo_def and_then_def case_prod_beta split: sum.splits)
  have w: "written (new_events (queue a) (queue a')) =
      (if command = [] then [] else [command @ MESSAGE_TERMINATOR])"
    using r sw tq1
    by (auto simp: sendZdo_def and_then_def case_prod_beta execute_closed send_closed
          new_events_def split: if_splits)
  from zdo_switch_form [OF sw]
  show "\<forall>d \<in> set (written (new_events (queue a) (queue a'))).
         \<exists>name rest. d = ''[Zdp,'' @ name @ '',S=0x0001.0'' @ rest"
  proof
    assume "command = []"
    then show ?thesis by (simp add: w)
  next
    assume "\<exists>name rest. command = ''[Zdp,'' @ name @ '',S=0x0001.0'' @ rest"
    then obtain name rest where "command = ''[Zdp,'' @ name @ '',S=0x0001.0'' @ rest" by blast
    then have "command @ MESSAGE_TERMINATOR =
        ''[Zdp,'' @ name @ '',S=0x0001.0'' @ (rest @ MESSAGE_TERMINATOR)"
      by simp
    then have ex: "\<exists>name rest. command @ MESSAGE_TERMINATOR = ''[Zdp,'' @ name @ '',S=0x0001.0'' @ rest"
      by blast
    have "\<exists>name rest. d = ''[Zdp,'' @ name @ '',S=0x0001.0'' @ rest"
      if "d \<in> set (written (new_events (queue a) (queue a')))" for d
    proof -
      have "d = command @ MESSAGE_TERMINATOR" using that unfolding w by (auto split: if_splits)
      with ex show ?thesis by blast
    qed
    then show ?thesis by blast
  qed
next
  assume s: "clusterId \<in> {NODE_DESCRIPTOR_REQUEST, ACTIVE_ENDPOINTS_REQUEST, SIMPLE_DESCRIPTOR_REQUEST,
                  IEEE_ADDRESS_REQUEST, LQI_TABLE_REQUEST, LEAVE_REQUEST}"
  let ?q1 = "snd (nextSequence (queue a))"
  let ?seq = "fst (nextSequence (queue a))"
  have tq1: "trace ?q1 = trace (queue a)" by (simp add: nextSequence_def)
  from zdo_switch_total [OF s] obtain command m
    where sw: "zdo_switch clusterId 1 ?seq payload = Inr (command, m)" and ne: "command \<noteq> []"
    by blast
  show "\<exists>task a' d. sendZdo ieeeAddress 0 clusterId payload disableResponse id' a = Inr (task, a') \<and>
         written (new_events (queue a) (queue a')) = [d]"
    using sw ne tq1
    by (cases disableResponse)
       (auto simp: sendZdo_def and_then_def case_prod_beta execute_closed send_closed new_events_def)
qed

theorem sendZdo_rewrites_coordinator_address_witness:
  "NODE_DESCRIPTOR_REQUEST \<in> {NODE_DESCRIPTOR_REQUEST, ACTIVE_ENDPOINTS_REQUEST,
       SIMPLE_DESCRIPTOR_REQUEST, IEEE_ADDRESS_REQUEST, LQI_TABLE_REQUEST, LEAVE_REQUEST} \<and>
   (\<exists>task a' d. sendZdo ''0x00158d0000732d27'' 0 NODE_DESCRIPTOR_REQUEST [] False ''1-0.5'' new_adapter =
        Inr (task, a') \<and>
      written (new_events (queue new_adapter) (queue a')) = [d] \<and>
      (\<exists>name rest. d = ''[Zdp,'' @ name @ '',S=0x0001.0'' @ rest))"
proof -
  have m: "NODE_DESCRIPTOR_REQUEST \<in> {NODE_DESCRIPTOR_REQUEST, ACTIVE_ENDPOINTS_REQUEST,
       SIMPLE_DESCRIPTOR_REQUEST, IEEE_ADDRESS_REQUEST, LQI_TABLE_REQUEST, LEAVE_REQUEST}" by simp
  note t = sendZdo_rewrites_coordinator_address
    [of "''0x00158d0000732d27''" NODE_DESCRIPTOR_REQUEST "[]" False "''1-0.5''" new_adapter]
  from t m obtain task a' d where
    r: "sendZdo ''0x00158d0000732d27'' 0 NODE_DESCRIPTOR_REQUEST [] False ''1-0.5'' new_adapter = Inr (task, a')"
    and w: "written (new_events (queue new_adapter) (queue a')) = [d]"
    by blast
  from t r have "\<forall>d \<in> set (written (new_events (queue new_adapter) (queue a'))).
         \<exists>name rest. d = ''[Zdp,'' @ name @ '',S=0x0001.0'' @ rest" by blast
  with w have "\<exists>name rest. d = ''[Zdp,'' @ name @ '',S=0x0001.0'' @ rest" by simp
  with r w m show ?thesis by blast
qed

end
